theory Spec2Isabelle
  imports Complex_Main "HOL-Library.AList" "HOL-Library.Log_Nat"
begin

section \<open>Python values\<close>

text \<open>
  Conditions are built from JSON-like data (\<^verbatim>\<open>Dict[str, Any]\<close>): \<open>None\<close>, booleans,
  integers, floats, strings, lists, and dictionaries with string keys, in insertion
  order. A float is a real number, an infinity or NaN; the model converts floats to
  integers, compares them and adds them.
\<close>

datatype pyfloat = Finite real | Pos_Inf | Neg_Inf | NaN

datatype pyval =
    PyNone
  | PyBool bool
  | PyInt int
  | PyFloat pyfloat
  | PyStr string
  | PyList "pyval list"
  | PyDict "(string \<times> pyval) list"

type_synonym pydict = "(string \<times> pyval) list"

text \<open>
  The exceptions the modelled code raises or catches by name. \<^verbatim>\<open>IOError\<close> is Python's
  \<^verbatim>\<open>OSError\<close>; the connection errors and \<^verbatim>\<open>TimeoutError\<close> are its subclasses.
\<close>

datatype pyexn =
    ValueError | TypeError | AttributeError | OverflowError | RuntimeError
  | OSError | ConnectionRefusedError | ConnectionAbortedError | TimeoutError
  | OtherError

text \<open>\<^verbatim>\<open>bool(v)\<close>, the truth value Python's \<^verbatim>\<open>if\<close>, \<^verbatim>\<open>and\<close>, \<^verbatim>\<open>or\<close> and \<^verbatim>\<open>not\<close> test.\<close>

fun py_truthy :: "pyval \<Rightarrow> bool" where
  "py_truthy PyNone = False"
| "py_truthy (PyBool b) = b"
| "py_truthy (PyInt n) = (n \<noteq> 0)"
| "py_truthy (PyFloat f) = (f \<noteq> Finite 0)"
| "py_truthy (PyStr s) = (s \<noteq> [])"
| "py_truthy (PyList xs) = (xs \<noteq> [])"
| "py_truthy (PyDict d) = (d \<noteq> [])"

text \<open>\<^verbatim>\<open>d.get(k, default)\<close> and \<^verbatim>\<open>d.get(k)\<close>, \<^verbatim>\<open>k in d\<close>, \<^verbatim>\<open>d[k] = v\<close>.\<close>

definition dict_get :: "pydict \<Rightarrow> string \<Rightarrow> pyval \<Rightarrow> pyval" where
  "dict_get d k dflt = (case map_of d k of Some v \<Rightarrow> v | None \<Rightarrow> dflt)"

definition dict_has :: "pydict \<Rightarrow> string \<Rightarrow> bool" where
  "dict_has d k = (map_of d k \<noteq> None)"

definition dict_set :: "pydict \<Rightarrow> string \<Rightarrow> pyval \<Rightarrow> pydict" where
  "dict_set d k v = AList.update k v d"

text \<open>
  What the modelled code takes from Python's library and from the modules of the
  repository that are not among the sources: parameters of the model.
  \<^item> \<open>int_of_str\<close>: the integer \<^verbatim>\<open>int(s)\<close> parses from a string, \<open>None\<close> where it
    raises ValueError;
  \<^item> \<open>str_strip\<close>, \<open>str_title\<close>: \<^verbatim>\<open>s.strip()\<close>, \<^verbatim>\<open>s.title()\<close>;
  \<^item> \<open>str_of\<close>: \<^verbatim>\<open>str(v)\<close>, as the f-strings format a value;
  \<^item> \<open>uuid4_hex n\<close>: what the \<open>n\<close>-th call of \<^verbatim>\<open>uuid.uuid4().hex\<close> returns;
  \<^item> \<open>bridge_imported\<close>, \<open>utils_imported\<close>, \<open>cv2_available\<close>: the module flags
    \<^verbatim>\<open>_BridgeImported\<close>, \<^verbatim>\<open>_UtilsImported\<close>, \<^verbatim>\<open>_CV2Available\<close>;
  \<^item> \<open>subclass_init_rest\<close>: what the constructor of a subclass other than NoneCondition
    does after \<^verbatim>\<open>if not self._is_valid: return\<close>, as its effect on the validity flag,
    the message and the parameters, or the exception it raises;
  \<^item> \<open>subclass_check_rest\<close>: what a subclass's \<^verbatim>\<open>check\<close> returns after
    \<^verbatim>\<open>if not super().check(**context): return False\<close>.
\<close>

datatype validation_message =
    Invalid_region int int int int
  | Invalid_region_coordinate_types pyexn
  | Subclass_message string

record pyenv =
  int_of_str :: "string \<Rightarrow> int option"
  str_strip :: "string \<Rightarrow> string"
  str_title :: "string \<Rightarrow> string"
  str_of :: "pyval \<Rightarrow> string"
  uuid4_hex :: "nat \<Rightarrow> string"
  bridge_imported :: bool
  utils_imported :: bool
  cv2_available :: bool
  subclass_init_rest ::
    "string \<Rightarrow> pydict \<Rightarrow> pyexn + (bool \<times> validation_message option \<times> pydict)"
  subclass_check_rest :: "string \<Rightarrow> pydict \<Rightarrow> bool"

text \<open>\<^verbatim>\<open>int(v)\<close>: a float is truncated towards zero.\<close>

fun py_int :: "pyenv \<Rightarrow> pyval \<Rightarrow> pyexn + int" where
  "py_int env (PyInt n) = Inr n"
| "py_int env (PyBool b) = Inr (if b then 1 else 0)"
| "py_int env (PyFloat (Finite q)) = Inr (if 0 \<le> q then \<lfloor>q\<rfloor> else \<lceil>q\<rceil>)"
| "py_int env (PyFloat NaN) = Inl ValueError"
| "py_int env (PyFloat Pos_Inf) = Inl OverflowError"
| "py_int env (PyFloat Neg_Inf) = Inl OverflowError"
| "py_int env (PyStr s) = (case int_of_str env s of Some n \<Rightarrow> Inr n | None \<Rightarrow> Inl ValueError)"
| "py_int env PyNone = Inl TypeError"
| "py_int env (PyList xs) = Inl TypeError"
| "py_int env (PyDict d) = Inl TypeError"

subsection \<open>Arithmetic on floats\<close>

text \<open>
  Python's floats are IEEE 754 doubles. A finite float is the real number it stands
  for (the sign of a zero plays no part in what follows). \<open>float_ge x y\<close> is
  \<^verbatim>\<open>x >= y\<close> and \<open>float_lt x y\<close> is \<^verbatim>\<open>x < y\<close>: every comparison with NaN is false.
\<close>

fun float_ge :: "pyfloat \<Rightarrow> pyfloat \<Rightarrow> bool" where
  "float_ge (Finite a) (Finite b) = (a \<ge> b)"
| "float_ge (Finite a) Neg_Inf = True"
| "float_ge Pos_Inf (Finite b) = True"
| "float_ge Pos_Inf Pos_Inf = True"
| "float_ge Pos_Inf Neg_Inf = True"
| "float_ge Neg_Inf Neg_Inf = True"
| "float_ge x y = False"

fun float_lt :: "pyfloat \<Rightarrow> pyfloat \<Rightarrow> bool" where
  "float_lt (Finite a) (Finite b) = (a < b)"
| "float_lt (Finite a) Pos_Inf = True"
| "float_lt Neg_Inf (Finite b) = True"
| "float_lt Neg_Inf Pos_Inf = True"
| "float_lt x y = False"

text \<open>
  \<^verbatim>\<open>min(a, b)\<close> and \<^verbatim>\<open>max(a, b)\<close>: the builtins keep their first argument unless the
  second compares smaller (greater).
\<close>

definition float_min :: "pyfloat \<Rightarrow> pyfloat \<Rightarrow> pyfloat" where
  "float_min a b = (if float_lt b a then b else a)"

definition float_max :: "pyfloat \<Rightarrow> pyfloat \<Rightarrow> pyfloat" where
  "float_max a b = (if float_lt a b then b else a)"

text \<open>
  The float nearest to a real number, ties going to the even significand.
  \<open>binade r\<close> is the exponent \<open>e\<close> with \<^verbatim>\<open>2**e <= abs(r) < 2**(e+1)\<close>; the floats of that
  binade are the multiples of \<^verbatim>\<open>2**(e-52)\<close>, and below \<^verbatim>\<open>2**-1022\<close> (the subnormal floats)
  the multiples of \<^verbatim>\<open>2**-1074\<close>; a result of magnitude \<^verbatim>\<open>2**1024\<close> or more is an
  infinity. (\<^const>\<open>bitlen\<close> \<open>n\<close> is the number of binary digits of a positive \<open>n\<close>.)
\<close>

definition binade :: "real \<Rightarrow> int" where
  "binade r = (if 1 \<le> \<bar>r\<bar> then bitlen \<lfloor>\<bar>r\<bar>\<rfloor> - 1 else - bitlen (\<lceil>1 / \<bar>r\<bar>\<rceil> - 1))"

definition round_half_even :: "real \<Rightarrow> int" where
  "round_half_even m =
     (let n = \<lfloor>m\<rfloor>; f = m - of_int n
      in if f < 1 / 2 then n else if 1 / 2 < f then n + 1 else if even n then n else n + 1)"

definition round_to_double :: "real \<Rightarrow> pyfloat" where
  "round_to_double r =
     (if r = 0 then Finite 0
      else
        (let e = max (binade r) (- 1022);
             ulp = 2 powi (e - 52);
             v = of_int (round_half_even (r / ulp)) * ulp
         in if 2 ^ 1024 \<le> \<bar>v\<bar> then (if 0 < r then Pos_Inf else Neg_Inf) else Finite v))"

text \<open>\<^verbatim>\<open>x + y\<close> on floats: the exact sum, rounded.\<close>

fun float_add :: "pyfloat \<Rightarrow> pyfloat \<Rightarrow> pyfloat" where
  "float_add (Finite a) (Finite b) = round_to_double (a + b)"
| "float_add NaN y = NaN"
| "float_add x NaN = NaN"
| "float_add Pos_Inf Neg_Inf = NaN"
| "float_add Neg_Inf Pos_Inf = NaN"
| "float_add Pos_Inf y = Pos_Inf"
| "float_add Neg_Inf y = Neg_Inf"
| "float_add (Finite a) y = y"

text \<open>
  The builtin \<^verbatim>\<open>sum\<close> over floats as CPython computes it up to version 3.11: the
  additions from left to right, starting at 0, each one rounded. From version 3.12 on
  CPython also carries a compensation term for the rounding errors, which can change
  the result.
\<close>

definition left_to_right_sum :: "pyfloat list \<Rightarrow> pyfloat" where
  "left_to_right_sum xs = foldl float_add (Finite 0) xs"

section \<open>Conditions (core/condition.py)\<close>

record condition =
  cond_id :: string
  cond_name :: string
  cond_type :: string
  params :: pydict
  is_monitored_by_ai_brain :: bool
  is_valid :: bool
  validation_error :: "validation_message option"

text \<open>
  The four conversions in the \<^verbatim>\<open>try\<close> block of \<^verbatim>\<open>_validate_basic_params\<close>, in the
  order of the source: the first that raises ends the block.
\<close>

definition region_ints :: "pyenv \<Rightarrow> pydict \<Rightarrow> pyexn + (int \<times> int \<times> int \<times> int)" where
  "region_ints env p =
     (case py_int env (dict_get p ''region_x1'' (PyInt 0)) of
        Inl e \<Rightarrow> Inl e
      | Inr x1 \<Rightarrow>
     (case py_int env (dict_get p ''region_y1'' (PyInt 0)) of
        Inl e \<Rightarrow> Inl e
      | Inr y1 \<Rightarrow>
     (case py_int env (dict_get p ''region_x2'' (PyInt (x1 + 1))) of
        Inl e \<Rightarrow> Inl e
      | Inr x2 \<Rightarrow>
     (case py_int env (dict_get p ''region_y2'' (PyInt (y1 + 1))) of
        Inl e \<Rightarrow> Inl e
      | Inr y2 \<Rightarrow> Inr (x1, y1, x2, y2)))))"

text \<open>
  \<^verbatim>\<open>Condition._validate_basic_params\<close>. ValueError and TypeError are caught; any
  other exception leaves the method, and the constructor.
\<close>

definition validate_basic_params :: "pyenv \<Rightarrow> condition \<Rightarrow> pyexn + condition" where
  "validate_basic_params env c =
     (if dict_has (params c) ''region_x1'' \<or> dict_has (params c) ''region_y1'' \<or>
         dict_has (params c) ''region_x2'' \<or> dict_has (params c) ''region_y2''
      then
        (case region_ints env (params c) of
           Inr (x1, y1, x2, y2) \<Rightarrow>
             (let c1 = (if x2 \<le> x1 \<or> y2 \<le> y1
                        then c\<lparr>is_valid := False,
                               validation_error := Some (Invalid_region x1 y1 x2 y2)\<rparr>
                        else c)
              in Inr (c1\<lparr>params :=
                   dict_set (dict_set (dict_set (dict_set (params c1)
                     ''region_x1'' (PyInt x1)) ''region_y1'' (PyInt y1))
                     ''region_x2'' (PyInt x2)) ''region_y2'' (PyInt y2)\<rparr>))
         | Inl e \<Rightarrow>
             (if e = ValueError \<or> e = TypeError
              then Inr (c\<lparr>is_valid := False,
                           validation_error := Some (Invalid_region_coordinate_types e)\<rparr>)
              else Inl e))
      else Inr c)"

text \<open>\<^verbatim>\<open>s.replace('_', ' ')\<close>.\<close>

definition underscores_to_spaces :: "string \<Rightarrow> string" where
  "underscores_to_spaces s = map (\<lambda>ch. if ch = CHR ''_'' then CHR '' '' else ch) s"

text \<open>
  \<^verbatim>\<open>Condition.__init__\<close>. \<open>k\<close> numbers the call of \<^verbatim>\<open>uuid.uuid4()\<close> this
  construction may make.
\<close>

definition Condition_init ::
  "pyenv \<Rightarrow> nat \<Rightarrow> string \<Rightarrow> pyval \<Rightarrow> pyval \<Rightarrow> pyval \<Rightarrow> bool \<Rightarrow> pyexn + condition" where
  "Condition_init env k type prms ident nm monitored =
     (if type = [] then Inl ValueError
      else
        (let the_id = (case ident of
                         PyStr s \<Rightarrow> if s \<noteq> [] \<and> str_strip env s \<noteq> [] then s else uuid4_hex env k
                       | _ \<Rightarrow> uuid4_hex env k);
             final_name = (case nm of
                         PyStr s \<Rightarrow> if s \<noteq> [] \<and> str_strip env s \<noteq> [] then s
                                    else str_title env (underscores_to_spaces type) @ ''_'' @ take 8 the_id
                       | _ \<Rightarrow> str_title env (underscores_to_spaces type) @ ''_'' @ take 8 the_id)
         in validate_basic_params env
              \<lparr>cond_id = the_id, cond_name = str_strip env final_name, cond_type = type,
               params = (case prms of PyDict d \<Rightarrow> d | _ \<Rightarrow> []),
               is_monitored_by_ai_brain = monitored, is_valid = True,
               validation_error = None\<rparr>))"

text \<open>
  \<^verbatim>\<open>Condition.check\<close>, the base method every subclass calls first.
\<close>

definition Condition_check :: "pyenv \<Rightarrow> 'a condition_scheme \<Rightarrow> bool" where
  "Condition_check env c =
     (if \<not> is_valid c then False
      else if \<not> bridge_imported env \<and> cond_type c \<noteq> ''none'' then False
      else True)"

text \<open>
  \<^verbatim>\<open>NoneCondition.__init__\<close>: \<^verbatim>\<open>name if name and name.strip() else "Always True"\<close>
  calls \<^verbatim>\<open>strip\<close> on any truthy name, and only a string has that method.
\<close>

definition NoneCondition_init ::
  "pyenv \<Rightarrow> nat \<Rightarrow> pyval \<Rightarrow> pyval \<Rightarrow> pyval \<Rightarrow> bool \<Rightarrow> pyexn + condition" where
  "NoneCondition_init env k prms ident nm monitored =
     (case nm of
        PyStr s \<Rightarrow>
          Condition_init env k ''none'' prms ident
            (if s \<noteq> [] \<and> str_strip env s \<noteq> [] then PyStr s else PyStr ''Always True'') False
      | _ \<Rightarrow>
          if py_truthy nm then Inl AttributeError
          else Condition_init env k ''none'' prms ident (PyStr ''Always True'') False)"

definition NoneCondition_check :: "pyenv \<Rightarrow> condition \<Rightarrow> bool" where
  "NoneCondition_check env c = (if \<not> Condition_check env c then False else True)"

text \<open>
  The constructor and the \<^verbatim>\<open>check\<close> of the eight other subclasses. Each constructor
  calls \<^verbatim>\<open>Condition.__init__\<close> with its own \<^verbatim>\<open>TYPE\<close>, returns at once when that left
  the condition invalid, and only then reads its own parameters.
\<close>

definition Subclass_init ::
  "pyenv \<Rightarrow> nat \<Rightarrow> string \<Rightarrow> pyval \<Rightarrow> pyval \<Rightarrow> pyval \<Rightarrow> bool \<Rightarrow> pyexn + condition" where
  "Subclass_init env k type prms ident nm monitored =
     (case Condition_init env k type prms ident nm monitored of
        Inl e \<Rightarrow> Inl e
      | Inr c \<Rightarrow>
          if \<not> is_valid c then Inr c
          else (case subclass_init_rest env type (params c) of
                  Inl e \<Rightarrow> Inl e
                | Inr (valid, msg, p) \<Rightarrow>
                    Inr (c\<lparr>is_valid := valid, validation_error := msg, params := p\<rparr>)))"

definition Subclass_check :: "pyenv \<Rightarrow> condition \<Rightarrow> bool" where
  "Subclass_check env c =
     (if \<not> Condition_check env c then False
      else subclass_check_rest env (cond_type c) (params c))"

text \<open>The keys of \<^verbatim>\<open>_CONDITION_CLASSES\<close>.\<close>

definition CONDITION_CLASSES :: "string list" where
  "CONDITION_CLASSES =
     [''none'', ''color_at_position'', ''image_on_screen'', ''text_on_screen'',
      ''window_exists'', ''process_exists'', ''text_in_relative_region'', ''region_color'',
      ''multi_image_on_screen'']"

text \<open>Calling the class registered for a type, and that class's \<^verbatim>\<open>check\<close>.\<close>

definition condition_class_init ::
  "pyenv \<Rightarrow> nat \<Rightarrow> string \<Rightarrow> pyval \<Rightarrow> pyval \<Rightarrow> pyval \<Rightarrow> bool \<Rightarrow> pyexn + condition" where
  "condition_class_init env k type prms ident nm monitored =
     (if type = ''none'' then NoneCondition_init env k prms ident nm monitored
      else Subclass_init env k type prms ident nm monitored)"

definition condition_check :: "pyenv \<Rightarrow> condition \<Rightarrow> bool" where
  "condition_check env c =
     (if cond_type c = ''none'' then NoneCondition_check env c else Subclass_check env c)"

text \<open>\<^verbatim>\<open>f"{condition_name or default}"\<close>.\<close>

definition name_or :: "pyenv \<Rightarrow> pyval \<Rightarrow> string \<Rightarrow> string" where
  "name_or env nm dflt = (if py_truthy nm then str_of env nm else dflt)"

text \<open>
  \<^verbatim>\<open>create_condition\<close>. The construction in the \<^verbatim>\<open>try\<close> block may call
  \<^verbatim>\<open>uuid.uuid4()\<close> (call \<open>k\<close>), the construction of the fallback in a handler too
  (call \<open>k + 1\<close>).
\<close>

definition create_condition :: "pyenv \<Rightarrow> nat \<Rightarrow> pyval \<Rightarrow> pyexn + condition" where
  "create_condition env k data =
     (case data of
        PyDict d \<Rightarrow>
          (let condition_type = dict_get d ''type'' PyNone;
               prms = dict_get d ''params'' (PyDict []);
               condition_id = dict_get d ''id'' PyNone;
               condition_name = dict_get d ''name'' PyNone;
               is_monitored = py_truthy (dict_get d ''is_monitored_by_ai_brain'' (PyBool False))
           in (case condition_type of
                 PyStr t \<Rightarrow>
                   if t = [] then
                     NoneCondition_init env k prms condition_id condition_name is_monitored
                   else
                     (let prms' = (case prms of PyDict pd \<Rightarrow> prms | _ \<Rightarrow> PyDict []) in
                      if t \<in> set CONDITION_CLASSES then
                        (case condition_class_init env k t prms' condition_id condition_name
                                is_monitored of
                           Inr c \<Rightarrow> Inr c
                         | Inl ValueError \<Rightarrow>
                             NoneCondition_init env (k + 1) prms' condition_id
                               (PyStr (name_or env condition_name ''Errored'' @ ''_INVALID''))
                               is_monitored
                         | Inl e \<Rightarrow>
                             NoneCondition_init env (k + 1) prms' condition_id
                               (PyStr (name_or env condition_name ''Errored'' @ ''_UNEXPECTED_ERROR''))
                               is_monitored)
                      else
                        NoneCondition_init env k prms' condition_id
                          (PyStr (name_or env condition_name ''UnknownType'' @ ''_'' @ t))
                          is_monitored)
               | _ \<Rightarrow> NoneCondition_init env k prms condition_id condition_name is_monitored))
      | _ \<Rightarrow> NoneCondition_init env k (PyDict []) PyNone PyNone False)"

subsection \<open>RegionColorCondition\<close>

text \<open>
  The condition logic the constructor stores: it replaces every value of the parameter
  \<^verbatim>\<open>condition_logic\<close> that is not one of the three names by the first.
\<close>

datatype region_color_logic =
    ANY_TARGET_MET_THRESHOLD
  | ALL_TARGETS_MET_THRESHOLD
  | TOTAL_PERCENTAGE_ABOVE_THRESHOLD

definition region_color_logic_of :: "pyval \<Rightarrow> region_color_logic" where
  "region_color_logic_of v =
     (if v = PyStr ''ALL_TARGETS_MET_THRESHOLD'' then ALL_TARGETS_MET_THRESHOLD
      else if v = PyStr ''TOTAL_PERCENTAGE_ABOVE_THRESHOLD'' then TOTAL_PERCENTAGE_ABOVE_THRESHOLD
      else ANY_TARGET_MET_THRESHOLD)"

text \<open>
  \<^verbatim>\<open>max(0.0, min(100.0, x))\<close>, which the constructor applies to every threshold it stores
  (lines 1240 and 1250): the result is a number from 0 to 100, also for an infinity
  and for NaN.
\<close>

definition clamp_percentage :: "pyfloat \<Rightarrow> pyfloat" where
  "clamp_percentage x = float_max (Finite 0) (float_min (Finite 100) x)"

text \<open>
  An entry of \<^verbatim>\<open>target_colors_list\<close>, as the constructor builds it (the key
  \<^verbatim>\<open>threshold\<close> is always present), and the fields the constructor adds to a
  condition. Percentages and thresholds are Python floats.
\<close>

record target_color =
  hex :: string
  rgb :: "nat \<times> nat \<times> nat"
  tolerance :: int
  label :: string
  threshold :: pyfloat

record region_color_condition = condition +
  target_colors_list :: "target_color list"
  match_percentage_threshold :: pyfloat
  sampling_step :: int
  region_condition_logic :: region_color_logic

text \<open>
  What \<^verbatim>\<open>check\<close> gets from the bridge, OpenCV and \<^verbatim>\<open>analyze_region_colors\<close> (lines
  1270 to 1289): no usable image, an exception (both make \<^verbatim>\<open>check\<close> return False),
  or the dictionary of percentages keyed by the hex colour.
\<close>

datatype region_analysis =
    Capture_failed
  | Analysis_raised
  | Color_percentages "(string \<times> pyfloat) list"

text \<open>\<^verbatim>\<open>color_percentages.get(hex_key, 0.0)\<close>.\<close>

definition percentage :: "(string \<times> pyfloat) list \<Rightarrow> string \<Rightarrow> pyfloat" where
  "percentage cp hex_key = (case map_of cp hex_key of Some v \<Rightarrow> v | None \<Rightarrow> Finite 0)"

text \<open>The two \<^verbatim>\<open>for color_def in self.target_colors_list\<close> loops.\<close>

fun any_target_met :: "(string \<times> pyfloat) list \<Rightarrow> target_color list \<Rightarrow> bool" where
  "any_target_met cp [] = False"
| "any_target_met cp (color_def # rest) =
     (if float_ge (percentage cp (hex color_def)) (threshold color_def) then True
      else any_target_met cp rest)"

fun all_targets_met :: "(string \<times> pyfloat) list \<Rightarrow> target_color list \<Rightarrow> bool" where
  "all_targets_met cp [] = True"
| "all_targets_met cp (color_def # rest) =
     (if float_lt (percentage cp (hex color_def)) (threshold color_def) then False
      else all_targets_met cp rest)"

text \<open>
  \<^verbatim>\<open>sum(color_percentages.get(cd["hex"], 0.0) for cd in self.target_colors_list)\<close>. The
  builtin adds floats, so every addition is rounded, and how the roundings accumulate
  is the interpreter's matter (see \<^const>\<open>left_to_right_sum\<close>): the builtin is the
  parameter \<open>builtin_sum\<close>, of which nothing is assumed.
\<close>

definition total_percentage ::
  "(pyfloat list \<Rightarrow> pyfloat) \<Rightarrow> (string \<times> pyfloat) list \<Rightarrow> target_color list \<Rightarrow> pyfloat" where
  "total_percentage builtin_sum cp tcs = builtin_sum (map (\<lambda>cd. percentage cp (hex cd)) tcs)"

text \<open>\<^verbatim>\<open>RegionColorCondition.check\<close>.\<close>

definition RegionColorCondition_check ::
  "pyenv \<Rightarrow> (pyfloat list \<Rightarrow> pyfloat) \<Rightarrow> region_analysis \<Rightarrow> region_color_condition \<Rightarrow> bool" where
  "RegionColorCondition_check env builtin_sum analysis c =
     (if \<not> Condition_check env c then False
      else if \<not> utils_imported env \<or> \<not> cv2_available env then False
      else
        (case analysis of
           Capture_failed \<Rightarrow> False
         | Analysis_raised \<Rightarrow> False
         | Color_percentages cp \<Rightarrow>
             (case region_condition_logic c of
                ANY_TARGET_MET_THRESHOLD \<Rightarrow>
                  if target_colors_list c = [] then False
                  else any_target_met cp (target_colors_list c)
              | ALL_TARGETS_MET_THRESHOLD \<Rightarrow>
                  if target_colors_list c = [] then True
                  else all_targets_met cp (target_colors_list c)
              | TOTAL_PERCENTAGE_ABOVE_THRESHOLD \<Rightarrow>
                  if target_colors_list c = [] then
                    float_ge (Finite 0) (match_percentage_threshold c)
                  else float_ge (total_percentage builtin_sum cp (target_colors_list c))
                         (match_percentage_threshold c))))"

section \<open>The registry of shared conditions (core/condition_manager.py)\<close>

text \<open>
  \<^verbatim>\<open>ConditionManager.shared_conditions\<close> is a dictionary from condition ids to
  conditions: an association list in insertion order, where assigning to a key that is
  present replaces its value in place (\<^const>\<open>AList.update\<close>).
\<close>

type_synonym registry = "(string \<times> condition) list"

text \<open>
  The loop of \<^verbatim>\<open>load_shared_conditions\<close>. The two counters it keeps are only logged.
  Each item may construct twice, so it gets two numbers of the uuid source.
\<close>

fun load_loop :: "pyenv \<Rightarrow> nat \<Rightarrow> pyval list \<Rightarrow> registry \<Rightarrow> registry" where
  "load_loop env k [] reg = reg"
| "load_loop env k (cond_data # rest) reg =
     (case cond_data of
        PyDict d \<Rightarrow>
          if dict_get d ''type'' PyNone = PyStr ''none'' then load_loop env (k + 2) rest reg
          else
            (case create_condition env k cond_data of
               Inr condition_obj \<Rightarrow>
                 if cond_id condition_obj \<noteq> [] \<and> cond_type condition_obj \<noteq> ''none''
                 then load_loop env (k + 2) rest
                        (AList.update (cond_id condition_obj) condition_obj reg)
                 else load_loop env (k + 2) rest reg
             | Inl e \<Rightarrow> load_loop env (k + 2) rest reg)
      | _ \<Rightarrow> load_loop env (k + 2) rest reg)"

definition load_shared_conditions :: "pyenv \<Rightarrow> nat \<Rightarrow> pyval \<Rightarrow> registry \<Rightarrow> registry" where
  "load_shared_conditions env k conditions_data_list reg =
     (case conditions_data_list of
        PyList items \<Rightarrow> load_loop env k items []
      | _ \<Rightarrow> [])"

definition get_shared_condition_by_id :: "registry \<Rightarrow> string \<Rightarrow> condition option" where
  "get_shared_condition_by_id reg condition_id =
     (if condition_id = [] then None else map_of reg condition_id)"

text \<open>
  \<^verbatim>\<open>add_or_update_shared_condition\<close>, for an argument that is a Condition object.
\<close>

definition add_or_update_shared_condition :: "registry \<Rightarrow> condition \<Rightarrow> bool \<times> registry" where
  "add_or_update_shared_condition reg condition_obj =
     (if cond_id condition_obj = [] then (False, reg)
      else if cond_type condition_obj = ''none'' then (False, reg)
      else (True, AList.update (cond_id condition_obj) condition_obj reg))"

text \<open>
  \<^verbatim>\<open>update_shared_condition_from_data\<close>. The method also writes the id and the name
  into the caller's dictionary; the model keeps that dictionary local. Every exception
  of the \<^verbatim>\<open>try\<close> block makes the method return False.
\<close>

definition update_shared_condition_from_data ::
  "pyenv \<Rightarrow> nat \<Rightarrow> registry \<Rightarrow> string \<Rightarrow> pyval \<Rightarrow> bool \<times> registry" where
  "update_shared_condition_from_data env k reg condition_id updated_condition_data =
     (case updated_condition_data of
        PyDict d \<Rightarrow>
          if condition_id = [] then (False, reg)
          else
            (case map_of reg condition_id of
               None \<Rightarrow> (False, reg)
             | Some original \<Rightarrow>
                 if dict_get d ''type'' PyNone = PyStr ''none'' then (False, reg)
                 else
                   (let d1 = dict_set d ''id'' (PyStr condition_id);
                        d2 = (if \<not> dict_has d1 ''name'' \<or>
                                 str_strip env (str_of env (dict_get d1 ''name'' (PyStr []))) = []
                              then dict_set d1 ''name'' (PyStr (cond_name original))
                              else d1)
                    in (case create_condition env k (PyDict d2) of
                          Inl e \<Rightarrow> (False, reg)
                        | Inr updated_condition_obj \<Rightarrow>
                            if cond_type updated_condition_obj = ''none'' then (False, reg)
                            else (True, AList.update condition_id updated_condition_obj reg))))
      | _ \<Rightarrow> (False, reg))"

definition delete_shared_condition :: "registry \<Rightarrow> string \<Rightarrow> bool \<times> registry" where
  "delete_shared_condition reg condition_id =
     (if condition_id = [] then (False, reg)
      else if map_of reg condition_id \<noteq> None then (True, AList.delete condition_id reg)
      else (False, reg))"

definition clear_all_shared_conditions :: "registry \<Rightarrow> registry" where
  "clear_all_shared_conditions reg = []"

text \<open>\<^verbatim>\<open>Condition.to_dict\<close> and \<^verbatim>\<open>get_serializable_data\<close>.\<close>

definition to_dict :: "condition \<Rightarrow> pyval" where
  "to_dict c =
     PyDict [(''id'', PyStr (cond_id c)), (''name'', PyStr (cond_name c)),
             (''type'', PyStr (cond_type c)), (''params'', PyDict (params c)),
             (''is_monitored_by_ai_brain'', PyBool (is_monitored_by_ai_brain c))]"

definition get_serializable_data :: "registry \<Rightarrow> pyval list" where
  "get_serializable_data reg =
     map (\<lambda>(k, cond). to_dict cond) (filter (\<lambda>(k, cond). cond_type cond \<noteq> ''none'') reg)"

text \<open>The invariant of the registry: it holds no condition of type \<^verbatim>\<open>none\<close>.\<close>

definition no_none_condition :: "registry \<Rightarrow> bool" where
  "no_none_condition reg = list_all (\<lambda>(k, cond). cond_type cond \<noteq> ''none'') reg"

section \<open>The bridge to the OS interaction service (python_csharp_bridge.py)\<close>

text \<open>
  One call of \<^verbatim>\<open>_send_request\<close> talks to the outside through the pipe. What the
  outside does is a parameter of the model:
  \<^item> \<open>connect_attempts\<close>: what each \<^verbatim>\<open>CreateFile\<close> of \<^verbatim>\<open>_connect_to_pipe\<close> did, for
    the attempts made before the connect deadline (the loop's clock test fails when the
    list is used up);
  \<^item> \<open>request_serializable\<close>: whether \<^verbatim>\<open>json.dumps\<close> accepts the request;
  \<^item> \<open>write_result\<close>: what \<^verbatim>\<open>WriteFile\<close> and \<^verbatim>\<open>FlushFileBuffers\<close> did;
  \<^item> \<open>reads\<close>: what each \<^verbatim>\<open>ReadFile\<close> did, for the reads made before the read
    deadline;
  \<^item> \<open>utf8_decode\<close>, \<open>json_loads\<close>: \<^verbatim>\<open>bytes.decode('utf-8')\<close> and \<^verbatim>\<open>json.loads\<close>,
    \<open>None\<close> where they raise UnicodeDecodeError and JSONDecodeError.
\<close>

type_synonym bytes = "char list"

datatype create_file_result =
    Handle nat
  | Invalid_handle
  | Pipe_busy_or_not_found
  | Connect_win32_error
  | Connect_exception

datatype write_result = Written | Write_broken_pipe | Write_win32_error | Write_exception

datatype read_result =
    Read_data bytes
  | Read_broken_pipe
  | Read_win32_error
  | Read_exception

record pipe_io =
  is_windows :: bool
  win_pipe_available :: bool
  connect_attempts :: "create_file_result list"
  request_serializable :: bool
  write_result :: write_result
  reads :: "read_result list"
  utf8_decode :: "bytes \<Rightarrow> string option"
  json_loads :: "string \<Rightarrow> pyval option"

text \<open>
  The loop of \<^verbatim>\<open>_connect_to_pipe\<close>: \<open>None\<close> is \<^verbatim>\<open>INVALID_HANDLE_VALUE\<close>.
\<close>

fun connect_to_pipe :: "create_file_result list \<Rightarrow> nat option" where
  "connect_to_pipe [] = None"
| "connect_to_pipe (Handle h # later) = Some h"
| "connect_to_pipe (Invalid_handle # later) = connect_to_pipe later"
| "connect_to_pipe (Pipe_busy_or_not_found # later) = connect_to_pipe later"
| "connect_to_pipe (Connect_win32_error # later) = None"
| "connect_to_pipe (Connect_exception # later) = None"

text \<open>\<^verbatim>\<open>response_buffer.find(b'\n')\<close>.\<close>

definition newline :: char where
  "newline = CHR 0x0A"

fun find_newline :: "bytes \<Rightarrow> nat option" where
  "find_newline [] = None"
| "find_newline (b # bs) =
     (if b = newline then Some 0 else map_option Suc (find_newline bs))"

text \<open>
  The read loop. It ends with an exception, or with \<^verbatim>\<open>response_json_line\<close> (\<open>None\<close>
  when the deadline passed or the pipe was closed before a newline came) and what is
  left in \<^verbatim>\<open>response_buffer\<close>. The two exceptions raised inside the loop's \<^verbatim>\<open>try\<close>
  (ConnectionAbortedError for a closed pipe with an empty buffer, ValueError for a line
  that is not UTF-8) are caught by its own \<^verbatim>\<open>except Exception\<close> and leave as IOError.
\<close>

datatype read_loop_result =
    Read_raised pyexn
  | Read_ended "string option" bytes

fun read_loop :: "pipe_io \<Rightarrow> bytes \<Rightarrow> read_result list \<Rightarrow> read_loop_result" where
  "read_loop io response_buffer [] = Read_ended None response_buffer"
| "read_loop io response_buffer (Read_data data_read # later) =
     (if data_read = [] then
        (if response_buffer \<noteq> [] then Read_ended None response_buffer
         else Read_raised OSError)
      else
        (let buffer = response_buffer @ data_read in
         case find_newline buffer of
           None \<Rightarrow> read_loop io buffer later
         | Some newline_index \<Rightarrow>
             (case utf8_decode io (take newline_index buffer) of
                Some response_json_line \<Rightarrow>
                  Read_ended (Some response_json_line) (drop (newline_index + 1) buffer)
              | None \<Rightarrow> Read_raised OSError)))"
| "read_loop io response_buffer (Read_broken_pipe # later) = Read_raised ConnectionAbortedError"
| "read_loop io response_buffer (Read_win32_error # later) = Read_raised OSError"
| "read_loop io response_buffer (Read_exception # later) = Read_raised OSError"

text \<open>
  The handling of the response line: \<^verbatim>\<open>response.get\<close> on a JSON value that is not an
  object raises AttributeError, which the last handler of \<^verbatim>\<open>_send_request\<close> turns into
  RuntimeError.
\<close>

definition handle_response :: "pipe_io \<Rightarrow> string \<Rightarrow> pyexn + pyval" where
  "handle_response io response_json_line =
     (case json_loads io response_json_line of
        None \<Rightarrow> Inl ValueError
      | Some (PyDict response) \<Rightarrow>
          (let status = dict_get response ''Status'' PyNone;
               result = dict_get response ''Result'' PyNone
           in if status = PyStr ''Success'' then Inr result
              else if status = PyStr ''Error'' then Inl RuntimeError
              else Inl ValueError)
      | Some other \<Rightarrow> Inl RuntimeError)"

text \<open>
  \<^verbatim>\<open>OSInteractionClient._send_request\<close>: the exception it raises, or the value it
  returns. (The \<^verbatim>\<open>finally\<close> block closes the handle; the model does not track it.)
\<close>

definition send_request :: "pipe_io \<Rightarrow> string \<Rightarrow> pyval \<Rightarrow> pyexn + pyval" where
  "send_request io command prms =
     (if \<not> is_windows io \<or> \<not> win_pipe_available io then Inl OSError
      else
        (case connect_to_pipe (connect_attempts io) of
           None \<Rightarrow> Inl ConnectionRefusedError
         | Some handle \<Rightarrow>
             if \<not> request_serializable io then Inl ValueError
             else
               (case write_result io of
                  Write_broken_pipe \<Rightarrow> Inl ConnectionAbortedError
                | Write_win32_error \<Rightarrow> Inl OSError
                | Write_exception \<Rightarrow> Inl OSError
                | Written \<Rightarrow>
                    (case read_loop io [] (reads io) of
                       Read_raised e \<Rightarrow> Inl e
                     | Read_ended None response_buffer \<Rightarrow> Inl TimeoutError
                     | Read_ended (Some response_json_line) response_buffer \<Rightarrow>
                         if response_json_line = [] then Inl TimeoutError
                         else handle_response io response_json_line))))"

section \<open>The job executor (core/job_executor.py)\<close>

text \<open>
  An action, as the executor reads it. \<^verbatim>\<open>core/action.py\<close> is not among the sources, so
  what an action does when executed is a parameter of the model (see below). The two
  branch targets are \<open>Some n\<close> where the attribute is an \<^verbatim>\<open>int\<close>; the fallback sequence
  is a list of action data (empty for \<^verbatim>\<open>None\<close>) of a type \<open>'d\<close> that \<^verbatim>\<open>create_action\<close>
  turns into actions; \<open>click_position\<close> is \<open>Some (x, y)\<close> where the action has both
  attributes \<^verbatim>\<open>x\<close> and \<^verbatim>\<open>y\<close>.
\<close>

record 'd action =
  action_type :: string
  condition_id :: "string option"
  next_action_index_if_condition_met :: "int option"
  next_action_index_if_condition_not_met :: "int option"
  is_absolute :: bool
  fallback_action_sequence :: "'d list"
  click_position :: "(int \<times> int) option"

datatype exec_outcome = Action_returned bool | Action_raised pyexn

datatype 'd created = Created "'d action" | Not_an_action | Create_raised

text \<open>
  The state a running executor reads and writes: its flag \<^verbatim>\<open>_is_executing\<close>, the stop
  event, the last click position of the job context, and the world outside (the
  screen, the clock).
\<close>

record 'w executor =
  is_executing :: bool
  stop_event :: bool
  last_click_position :: "(int \<times> int) option"
  world :: 'w

text \<open>
  The environment of a run:
  \<^item> \<open>execute a s\<close>: what \<^verbatim>\<open>action.execute(...)\<close> returns or raises in state \<open>s\<close>, and the
    state it leaves. Other threads run meanwhile (\<^verbatim>\<open>JobExecutor.stop\<close> clears the flag
    and sets the event), so the new state may differ from \<open>s\<close> in every field;
  \<^item> \<open>wait_stop t s\<close>: the state after \<^verbatim>\<open>self._stop_event.wait(timeout=t)\<close>, which
    returns whether the event is set then;
  \<^item> \<open>create_action d\<close>: the action \<^verbatim>\<open>create_action\<close> builds from fallback data.
  Between these calls the model lets no other thread run.
\<close>

record ('d, 'w) executor_env =
  execute :: "'d action \<Rightarrow> 'w executor \<Rightarrow> exec_outcome \<times> 'w executor"
  wait_stop :: "real \<Rightarrow> 'w executor \<Rightarrow> 'w executor"
  create_action :: "'d \<Rightarrow> 'd created"

text \<open>
  What a run does is recorded as a list of events, returned beside the result and never
  read by the code: an invocation of \<^verbatim>\<open>action.execute\<close> with its fallback depth and
  outcome, a wait of an absolute action with its depth and timeout, and the dispatch of
  an action signature by the loop of \<^verbatim>\<open>_execute_loop\<close>.
\<close>

type_synonym action_signature = "int \<times> string \<times> string option"

datatype 'd event =
    Executed nat "'d action" exec_outcome
  | Waited nat real
  | Dispatched action_signature

definition MAX_FALLBACK_DEPTH :: nat where
  "MAX_FALLBACK_DEPTH = 3"

definition ABSOLUTE_ACTION_MAX_RETRIES :: nat where
  "ABSOLUTE_ACTION_MAX_RETRIES = 10"

definition ABSOLUTE_ACTION_RETRY_INTERVAL :: real where
  "ABSOLUTE_ACTION_RETRY_INTERVAL = 1 / 2"

text \<open>
  \<^verbatim>\<open>target if isinstance(target, int) and target >= 0 else current_action_index + 1\<close>,
  the expression every return of a jump repeats.
\<close>

definition branch_target :: "int option \<Rightarrow> int \<Rightarrow> int" where
  "branch_target target current_action_index =
     (case target of
        Some n \<Rightarrow> if n \<ge> 0 then n else current_action_index + 1
      | None \<Rightarrow> current_action_index + 1)"

text \<open>The update of \<^verbatim>\<open>last_click_position\<close> after a click whose condition was met.\<close>

definition note_click :: "'d action \<Rightarrow> bool \<Rightarrow> 'w executor \<Rightarrow> 'w executor" where
  "note_click a met s =
     (if action_type a = ''click'' \<and> met then
        (case click_position a of
           Some xy \<Rightarrow> s\<lparr>last_click_position := Some xy\<rparr>
         | None \<Rightarrow> s)
      else s)"

text \<open>
  \<^verbatim>\<open>JobExecutor._execute_action_with_fallback\<close>, with its \<^verbatim>\<open>while\<close> loop over the
  retries (\<open>retry_loop\<close>, from the loop test on, with the variables
  \<^verbatim>\<open>absolute_retries_left\<close> and \<^verbatim>\<open>condition_met_for_this_action\<close>) and its \<^verbatim>\<open>for\<close> loop
  over the fallback sequence (\<open>fallback_loop\<close>, which returns
  \<^verbatim>\<open>any_fallback_successful\<close>). The recursion ends because the depth grows with every
  nested call and nothing runs beyond \<^const>\<open>MAX_FALLBACK_DEPTH\<close>.
\<close>

function
  execute_action_with_fallback ::
    "('d, 'w) executor_env \<Rightarrow> 'd action \<Rightarrow> int \<Rightarrow> nat \<Rightarrow> 'w executor
      \<Rightarrow> (bool \<times> int) \<times> 'w executor \<times> 'd event list"
and retry_loop ::
    "('d, 'w) executor_env \<Rightarrow> 'd action \<Rightarrow> int \<Rightarrow> nat \<Rightarrow> nat \<Rightarrow> bool \<Rightarrow> 'w executor
      \<Rightarrow> (bool \<times> int) \<times> 'w executor \<times> 'd event list"
and fallback_loop ::
    "('d, 'w) executor_env \<Rightarrow> 'd list \<Rightarrow> int \<Rightarrow> nat \<Rightarrow> 'w executor
      \<Rightarrow> bool \<times> 'w executor \<times> 'd event list"
where
  "execute_action_with_fallback env a current_action_index fallback_depth s =
     (if fallback_depth > MAX_FALLBACK_DEPTH then ((False, current_action_index + 1), s, [])
      else retry_loop env a current_action_index fallback_depth
             (if is_absolute a then ABSOLUTE_ACTION_MAX_RETRIES else 1) False s)"
| "retry_loop env a current_action_index fallback_depth absolute_retries_left condition_met s =
     (if absolute_retries_left > 0 then
        if \<not> is_executing s \<or> stop_event s then
          ((condition_met, current_action_index + 1), s\<lparr>is_executing := False\<rparr>, [])
        else
          (case execute env a s of
             (Action_raised e, s1) \<Rightarrow>
               ((False, - 1), s1\<lparr>is_executing := False, stop_event := True\<rparr>,
                [Executed fallback_depth a (Action_raised e)])
           | (Action_returned met, s1) \<Rightarrow>
               (let s2 = note_click a met s1;
                    ev = Executed fallback_depth a (Action_returned met)
                in
                if \<not> is_executing s2 then ((met, current_action_index + 1), s2, [ev])
                else if met then
                  ((True, branch_target (next_action_index_if_condition_met a)
                            current_action_index), s2, [ev])
                else if is_absolute a \<and> absolute_retries_left - 1 > 0 then
                  (let s3 = wait_stop env ABSOLUTE_ACTION_RETRY_INTERVAL s2;
                       wt = Waited fallback_depth ABSOLUTE_ACTION_RETRY_INTERVAL
                   in
                   if stop_event s3 then
                     ((False, current_action_index + 1), s3\<lparr>is_executing := False\<rparr>, [ev, wt])
                   else
                     (case retry_loop env a current_action_index fallback_depth
                             (absolute_retries_left - 1) met s3 of
                        (r, s4, evs) \<Rightarrow> (r, s4, ev # wt # evs)))
                else if fallback_action_sequence a \<noteq> [] then
                  (case fallback_loop env (fallback_action_sequence a) current_action_index
                          fallback_depth s2 of
                     (any_fallback_successful, s3, evs) \<Rightarrow>
                       ((any_fallback_successful,
                         branch_target (next_action_index_if_condition_not_met a)
                           current_action_index), s3, ev # evs))
                else
                  ((False, branch_target (next_action_index_if_condition_not_met a)
                             current_action_index), s2, [ev])))
      else
        ((False, branch_target (next_action_index_if_condition_not_met a) current_action_index),
         s, []))"
| "fallback_loop env [] current_action_index fallback_depth s = (False, s, [])"
| "fallback_loop env (fallback_action_data # later) current_action_index fallback_depth s =
     (if \<not> is_executing s \<or> stop_event s then (False, s, [])
      else
        (case create_action env fallback_action_data of
           Create_raised \<Rightarrow> fallback_loop env later current_action_index fallback_depth s
         | Not_an_action \<Rightarrow> fallback_loop env later current_action_index fallback_depth s
         | Created fallback_action_obj \<Rightarrow>
             (case execute_action_with_fallback env fallback_action_obj current_action_index
                     (fallback_depth + 1) s of
                ((fallback_condition_met, next_idx_from_fallback), s1, evs) \<Rightarrow>
                  if fallback_condition_met then (True, s1, evs)
                  else
                    (case fallback_loop env later current_action_index fallback_depth s1 of
                       (any_fallback_successful, s2, evs2) \<Rightarrow>
                         (any_fallback_successful, s2, evs @ evs2)))))"
  by pat_completeness auto
termination
  by (relation "inv_image (less_than <*lex*> less_than <*lex*> less_than)
        (\<lambda>x. case x of
           Inl (env, a, idx, depth, s) \<Rightarrow>
             (if depth > MAX_FALLBACK_DEPTH then 0 else Suc (5 - depth), 2, 0)
         | Inr (Inl (env, a, idx, depth, retries, met, s)) \<Rightarrow> (Suc (5 - depth), 1, retries)
         | Inr (Inr (env, ds, idx, depth, s)) \<Rightarrow> (Suc (5 - depth), 0, length ds))")
     (auto simp: MAX_FALLBACK_DEPTH_def)

text \<open>
  The loop over the action list in \<^verbatim>\<open>_execute_loop\<close> (lines 307 to 348): one run cycle.
  An item of the list that is not an Action is \<open>None\<close>. The loop need not end (two
  actions may send the job to each other for ever), so the model runs it on fuel, one
  unit per iteration, and says whether the loop ended or the fuel did; either way it
  returns the state reached and the events so far.
\<close>

datatype loop_status = Sequence_ended | Out_of_fuel

definition MAX_HISTORY_LENGTH :: nat where
  "MAX_HISTORY_LENGTH = 20"

definition MIN_REPETITIONS_FOR_LOOP_DETECTION :: nat where
  "MIN_REPETITIONS_FOR_LOOP_DETECTION = 3"

text \<open>
  Lines 328 to 330: the signature is appended to the history, whose oldest entry is
  dropped beyond \<^const>\<open>MAX_HISTORY_LENGTH\<close>. Lines 332 to 334: the test of the loop
  detection on the history so extended.
\<close>

definition record_signature :: "action_signature list \<Rightarrow> action_signature \<Rightarrow> action_signature list" where
  "record_signature execution_history current_action_signature =
     (let h = execution_history @ [current_action_signature]
      in if length h > MAX_HISTORY_LENGTH then tl h else h)"

definition loop_detected :: "action_signature list \<Rightarrow> action_signature \<Rightarrow> bool" where
  "loop_detected execution_history current_action_signature =
     (length execution_history \<ge> MIN_REPETITIONS_FOR_LOOP_DETECTION \<and>
      list_all (\<lambda>sig. sig = current_action_signature)
        (drop (length execution_history - MIN_REPETITIONS_FOR_LOOP_DETECTION) execution_history))"

fun action_sequence_loop ::
  "nat \<Rightarrow> ('d, 'w) executor_env \<Rightarrow> 'd action option list \<Rightarrow> int \<Rightarrow> action_signature list
    \<Rightarrow> 'w executor \<Rightarrow> loop_status \<times> 'w executor \<times> 'd event list" where
  "action_sequence_loop 0 env actions_list current_action_index execution_history s =
     (Out_of_fuel, s, [])"
| "action_sequence_loop (Suc fuel) env actions_list current_action_index execution_history s =
     (if 0 \<le> current_action_index \<and> current_action_index < int (length actions_list) then
        if \<not> is_executing s \<or> stop_event s then
          (Sequence_ended, s\<lparr>is_executing := False\<rparr>, [])
        else
          (case actions_list ! nat current_action_index of
             None \<Rightarrow>
               action_sequence_loop fuel env actions_list (current_action_index + 1)
                 execution_history s
           | Some a \<Rightarrow>
               (let current_action_signature =
                      (current_action_index, action_type a, condition_id a);
                    history = record_signature execution_history current_action_signature
                in
                if loop_detected history current_action_signature
                then (Sequence_ended, s\<lparr>is_executing := False, stop_event := True\<rparr>, [])
                else
                  (case execute_action_with_fallback env a current_action_index 0 s of
                     ((final_condition_check_result_for_jump, next_index_to_jump_to), s1, evs) \<Rightarrow>
                       if next_index_to_jump_to = - 1 then
                         (Sequence_ended, s1\<lparr>is_executing := False, stop_event := True\<rparr>,
                          Dispatched current_action_signature # evs)
                       else
                         (case action_sequence_loop fuel env actions_list next_index_to_jump_to
                                 history s1 of
                            (status, s2, evs2) \<Rightarrow>
                              (status, s2, Dispatched current_action_signature # evs @ evs2)))))
      else (Sequence_ended, s, []))"

declare execute_action_with_fallback.simps [simp del] retry_loop.simps [simp del]
  fallback_loop.simps [simp del] action_sequence_loop.simps [simp del]

text \<open>Reading the events: the depth of an event, the events of one depth, the outcomes
  of the invocations among them, and the signatures the loop dispatched.\<close>

fun event_depth :: "'d event \<Rightarrow> nat option" where
  "event_depth (Executed d a outcome) = Some d"
| "event_depth (Waited d t) = Some d"
| "event_depth (Dispatched sig) = None"

definition events_at :: "nat \<Rightarrow> 'd event list \<Rightarrow> 'd event list" where
  "events_at d evs = filter (\<lambda>e. event_depth e = Some d) evs"

text \<open>Every event lies at depth \<open>d\<close> or deeper (and none is a dispatch).\<close>

definition at_depth_or_deeper :: "nat \<Rightarrow> 'd event list \<Rightarrow> bool" where
  "at_depth_or_deeper d evs =
     list_all (\<lambda>e. case event_depth e of Some d' \<Rightarrow> d \<le> d' | None \<Rightarrow> False) evs"

fun outcomes :: "'d event list \<Rightarrow> exec_outcome list" where
  "outcomes [] = []"
| "outcomes (Executed d a outcome # evs) = outcome # outcomes evs"
| "outcomes (e # evs) = outcomes evs"

fun dispatches :: "'d event list \<Rightarrow> action_signature list" where
  "dispatches [] = []"
| "dispatches (Dispatched sig # evs) = sig # dispatches evs"
| "dispatches (e # evs) = dispatches evs"

text \<open>
  The shape of the events of a retried action: invocations that returned False, each
  followed by a wait of the fixed interval, and then at most one more invocation, of
  the same action at the same depth.
\<close>

fun retried :: "nat \<Rightarrow> 'd action \<Rightarrow> 'd event list \<Rightarrow> bool" where
  "retried d a [] = True"
| "retried d a [Executed d' a' outcome] = (d' = d \<and> a' = a)"
| "retried d a (Executed d' a' outcome # Waited d'' t # evs) =
     (d' = d \<and> a' = a \<and> outcome = Action_returned False \<and> d'' = d \<and>
      t = ABSOLUTE_ACTION_RETRY_INTERVAL \<and> retried d a evs)"
| "retried d a evs = False"

text \<open>No signature three times in a row.\<close>

fun no_three_in_a_row :: "'a list \<Rightarrow> bool" where
  "no_three_in_a_row (x # y # z # zs) =
     (\<not> (x = y \<and> y = z) \<and> no_three_in_a_row (y # z # zs))"
| "no_three_in_a_row zs = True"

section \<open>Triggers (core/trigger.py)\<close>

text \<open>
  A condition's \<^verbatim>\<open>check(**context)\<close> reads the screen through the bridge, so its
  outcome depends on the outside world. It is a parameter of the model: a function from
  the condition and the world to an outcome and the world it leaves behind. An outcome
  is a returned boolean, or an exception (which \<^verbatim>\<open>check_conditions\<close> catches).
\<close>

datatype check_result = Check_Returned bool | Check_Raised

text \<open>\<^verbatim>\<open>Trigger.VALID_LOGICS\<close>: the constructor refuses every other value.\<close>

datatype condition_logic = LOGIC_AND | LOGIC_OR

record ('c, 'a, 't) trigger =
  trigger_name :: string
  conditions :: "'c list"
  condition_logic :: condition_logic
  trigger_actions :: "'a list"
  enabled :: bool
  check_interval_seconds :: 't
  is_ai_trigger :: bool
  last_checked_time :: 't
  last_triggered_time :: 't

text \<open>
  The \<^verbatim>\<open>for condition_obj in self.conditions\<close> loop of \<^verbatim>\<open>check_conditions\<close>, with
  the list \<^verbatim>\<open>results\<close> it appends to, and the two statements after the loop.
\<close>

fun check_conditions_loop ::
  "('c \<Rightarrow> 'w \<Rightarrow> check_result \<times> 'w) \<Rightarrow> condition_logic \<Rightarrow> 'c list \<Rightarrow> bool list \<Rightarrow> 'w
    \<Rightarrow> bool \<times> 'w" where
  "check_conditions_loop chk logic [] results w =
     (if results = [] then (False, w) else (logic = LOGIC_AND, w))"
| "check_conditions_loop chk logic (c # cs) results w =
     (case chk c w of
        (Check_Returned result, w') \<Rightarrow>
          if logic = LOGIC_OR \<and> result then (True, w')
          else if logic = LOGIC_AND \<and> \<not> result then (False, w')
          else check_conditions_loop chk logic cs (results @ [result]) w'
      | (Check_Raised, w') \<Rightarrow>
          if logic = LOGIC_AND then (False, w')
          else check_conditions_loop chk logic cs (results @ [False]) w')"

text \<open>
  \<^verbatim>\<open>Trigger.check_conditions\<close>. \<open>now\<close> is the value \<^verbatim>\<open>time.monotonic()\<close> returns.
  The result is the returned boolean, the trigger (its \<^verbatim>\<open>last_checked_time\<close> may be
  updated) and the world after the checks.
\<close>

definition check_conditions ::
  "('c \<Rightarrow> 'w \<Rightarrow> check_result \<times> 'w) \<Rightarrow> 't \<Rightarrow> ('c, 'a, 't) trigger \<Rightarrow> 'w
    \<Rightarrow> bool \<times> ('c, 'a, 't) trigger \<times> 'w" where
  "check_conditions chk now t w =
     (if \<not> enabled t then (False, t, w)
      else if is_ai_trigger t then (False, t, w)
      else if conditions t = [] then (trigger_actions t \<noteq> [], t, w)
      else (case check_conditions_loop chk (condition_logic t) (conditions t) [] w of
              (r, w') \<Rightarrow> (r, t\<lparr>last_checked_time := now\<rparr>, w')))"

text \<open>
  What every condition's check returns, one after the other in list order and without
  any short cut: the yardstick the claim about \<^verbatim>\<open>check_conditions\<close> is measured with.
  An exception counts as \<open>False\<close>.
\<close>

fun check_every :: "('c \<Rightarrow> 'w \<Rightarrow> check_result \<times> 'w) \<Rightarrow> 'c list \<Rightarrow> 'w \<Rightarrow> bool list" where
  "check_every chk [] w = []"
| "check_every chk (c # cs) w =
     (case chk c w of
        (Check_Returned result, w') \<Rightarrow> result # check_every chk cs w'
      | (Check_Raised, w') \<Rightarrow> False # check_every chk cs w')"

text \<open>
  A concrete trigger for the examples: two conditions that are their own check results,
  checked in a world that has no state.
\<close>

definition demo_trigger :: "condition_logic \<Rightarrow> (bool, string, nat) trigger" where
  "demo_trigger logic =
     \<lparr>trigger_name = ''demo'', conditions = [True, False], condition_logic = logic,
      trigger_actions = [''start_job''], enabled = True, check_interval_seconds = 1,
      is_ai_trigger = False, last_checked_time = 0, last_triggered_time = 0\<rparr>"

definition demo_check :: "bool \<Rightarrow> unit \<Rightarrow> check_result \<times> unit" where
  "demo_check c w = (Check_Returned c, w)"

section \<open>Example inputs\<close>

text \<open>
  Stand-ins for the library functions in the examples: \<open>demo_int_of_str\<close> parses plain
  decimal numerals (with an optional minus sign) and rejects every other string,
  \<open>demo_strip\<close> strips blanks, \<open>demo_title\<close> capitalises ASCII words, \<open>demo_str_of\<close>
  formats strings, \<open>None\<close> and booleans. The subclasses of the example environment
  accept their parameters as they are, and their checks return True.
\<close>

definition ascii_digit :: "char \<Rightarrow> bool" where
  "ascii_digit ch = (48 \<le> (of_char ch :: nat) \<and> (of_char ch :: nat) \<le> 57)"

definition decimal_value :: "string \<Rightarrow> int" where
  "decimal_value s = foldl (\<lambda>n ch. 10 * n + int ((of_char ch :: nat) - 48)) 0 s"

definition demo_int_of_str :: "string \<Rightarrow> int option" where
  "demo_int_of_str s =
     (case s of
        [] \<Rightarrow> None
      | ch # r \<Rightarrow>
          if ch = CHR ''-'' then
            (if r \<noteq> [] \<and> list_all ascii_digit r then Some (- decimal_value r) else None)
          else if list_all ascii_digit s then Some (decimal_value s) else None)"

definition demo_strip :: "string \<Rightarrow> string" where
  "demo_strip s =
     rev (dropWhile (\<lambda>ch. ch = CHR '' '') (rev (dropWhile (\<lambda>ch. ch = CHR '' '') s)))"

fun demo_title_from :: "bool \<Rightarrow> string \<Rightarrow> string" where
  "demo_title_from in_word [] = []"
| "demo_title_from in_word (ch # r) =
     (let n = (of_char ch :: nat) in
      if 97 \<le> n \<and> n \<le> 122 then
        (if in_word then ch else char_of (n - 32)) # demo_title_from True r
      else if 65 \<le> n \<and> n \<le> 90 then
        (if in_word then char_of (n + 32) else ch) # demo_title_from True r
      else ch # demo_title_from False r)"

definition demo_str_of :: "pyval \<Rightarrow> string" where
  "demo_str_of v =
     (case v of
        PyStr s \<Rightarrow> s
      | PyNone \<Rightarrow> ''None''
      | PyBool b \<Rightarrow> (if b then ''True'' else ''False'')
      | _ \<Rightarrow> ''<object>'')"

definition demo_env :: pyenv where
  "demo_env =
     \<lparr>int_of_str = demo_int_of_str, str_strip = demo_strip,
      str_title = demo_title_from False, str_of = demo_str_of,
      uuid4_hex = (\<lambda>n. ''9f1c2e7ab4d04c6e8a3b5d7f0e1c2a3'' @ [if even n then CHR ''0'' else CHR ''1'']),
      bridge_imported = True, utils_imported = True, cv2_available = True,
      subclass_init_rest = (\<lambda>type p. Inr (True, None, p)),
      subclass_check_rest = (\<lambda>type p. True)\<rparr>"

text \<open>Region parameters: a region whose right edge is left of its left edge, a region
  with a coordinate that is no number, and a well-formed region given in floats.\<close>

definition region_backwards :: pydict where
  "region_backwards = [(''region_x1'', PyInt 10), (''region_x2'', PyInt 5)]"

definition region_not_a_number :: pydict where
  "region_not_a_number = [(''region_x1'', PyStr ''left''), (''region_x2'', PyInt 5)]"

definition region_of_floats :: pydict where
  "region_of_floats =
     [(''region_x1'', PyFloat (Finite (5 / 2))), (''region_y1'', PyFloat (Finite (5 / 2))),
      (''region_x2'', PyFloat (Finite (21 / 2))), (''region_y2'', PyFloat (Finite (21 / 2)))]"

text \<open>A registry with one shared condition, a NoneCondition, and data to load.\<close>

definition demo_window_condition :: condition where
  "demo_window_condition =
     \<lparr>cond_id = ''w1'', cond_name = ''Editor open'', cond_type = ''window_exists'',
      params = [(''window_title'', PyStr ''Editor'')], is_monitored_by_ai_brain = False,
      is_valid = True, validation_error = None\<rparr>"

definition demo_none_condition :: condition where
  "demo_none_condition =
     \<lparr>cond_id = ''n1'', cond_name = ''Always True'', cond_type = ''none'',
      params = [], is_monitored_by_ai_brain = False,
      is_valid = True, validation_error = None\<rparr>"

definition demo_registry :: registry where
  "demo_registry = [(''w1'', demo_window_condition)]"

definition demo_none_data :: pydict where
  "demo_none_data = [(''id'', PyStr ''w1''), (''type'', PyStr ''none'')]"

definition demo_conditions_data :: pyval where
  "demo_conditions_data =
     PyList [PyDict demo_none_data,
             PyDict [(''id'', PyStr ''p1''), (''type'', PyStr ''process_exists''),
                     (''params'', PyDict [(''process_name'', PyStr ''notepad.exe'')])]]"

text \<open>
  A region colour condition with two targets, the percentages of an analysis, and the
  percentages 16.666666666666668 and 83.33333333333333 (the floats nearest to a sixth
  and to five sixths of a hundred).
\<close>

definition demo_region_color :: "region_color_logic \<Rightarrow> region_color_condition" where
  "demo_region_color logic =
     \<lparr>cond_id = ''r1'', cond_name = ''Health bar'', cond_type = ''region_color'',
      params = [], is_monitored_by_ai_brain = False, is_valid = True, validation_error = None,
      target_colors_list =
        [\<lparr>hex = ''#ff0000'', rgb = (255, 0, 0), tolerance = 10, label = ''red'',
          threshold = Finite 60\<rparr>,
         \<lparr>hex = ''#00ff00'', rgb = (0, 255, 0), tolerance = 10, label = ''green'',
          threshold = Finite 20\<rparr>],
      match_percentage_threshold = Finite 75, sampling_step = 1,
      region_condition_logic = logic\<rparr>"

definition demo_percentages :: "(string \<times> pyfloat) list" where
  "demo_percentages = [(''#ff0000'', Finite 50), (''#00ff00'', Finite 30)]"

definition demo_sixths :: "(string \<times> pyfloat) list" where
  "demo_sixths =
     [(''#ff0000'', Finite (4691249611844267 / 2 ^ 48)),
      (''#00ff00'', Finite (5864062014805333 / 2 ^ 46))]"

text \<open>
  A pipe that connects at the second attempt and takes the request, with a decoder that
  accepts ASCII and rejects every byte from 0x80 on (as a UTF-8 decoder rejects a lone
  byte 0xFF); the JSON parser and the reads are left open.
\<close>

definition demo_ascii_decode :: "bytes \<Rightarrow> string option" where
  "demo_ascii_decode bs = (if list_all (\<lambda>b. (of_char b :: nat) < 128) bs then Some bs else None)"

definition demo_pipe :: "(string \<Rightarrow> pyval option) \<Rightarrow> read_result list \<Rightarrow> pipe_io" where
  "demo_pipe loads rs =
     \<lparr>is_windows = True, win_pipe_available = True,
      connect_attempts = [Pipe_busy_or_not_found, Handle 7],
      request_serializable = True, write_result = Written, reads = rs,
      utf8_decode = demo_ascii_decode, json_loads = loads\<rparr>"

text \<open>
  A run for the examples. The world counts the invocations of \<^verbatim>\<open>execute\<close>. An action of
  type \<^verbatim>\<open>click\<close> meets its condition, one of type \<^verbatim>\<open>third time\<close> meets it from the third
  invocation of the run on, one of type \<^verbatim>\<open>broken\<close> raises, every other action does not
  meet it. Nobody stops the job. Fallback data are numbers: 0 is no action, 9 a click,
  and \<open>n\<close> is an action that never meets its condition and falls back on \<open>n + 1\<close>.
\<close>

definition demo_action :: "string \<Rightarrow> bool \<Rightarrow> nat list \<Rightarrow> nat action" where
  "demo_action type absolute fallbacks =
     \<lparr>action_type = type, condition_id = None,
      next_action_index_if_condition_met = Some 5,
      next_action_index_if_condition_not_met = None,
      is_absolute = absolute, fallback_action_sequence = fallbacks,
      click_position = None\<rparr>"

definition demo_execute :: "nat action \<Rightarrow> nat executor \<Rightarrow> exec_outcome \<times> nat executor" where
  "demo_execute a s =
     (if action_type a = ''broken'' then Action_raised RuntimeError
      else Action_returned
             (action_type a = ''click'' \<or> (action_type a = ''third time'' \<and> 2 \<le> world s)),
      s\<lparr>world := world s + 1\<rparr>)"

definition demo_create_action :: "nat \<Rightarrow> nat created" where
  "demo_create_action n =
     (if n = 0 then Not_an_action
      else if n = 9 then Created (demo_action ''click'' False [])
      else Created (demo_action ''never'' False [n + 1]))"

definition demo_executor_env :: "(nat, nat) executor_env" where
  "demo_executor_env =
     \<lparr>execute = demo_execute, wait_stop = (\<lambda>t s. s), create_action = demo_create_action\<rparr>"

definition demo_state :: "nat executor" where
  "demo_state = \<lparr>is_executing = True, stop_event = False, last_click_position = None, world = 0\<rparr>"

definition demo_looping_action :: "nat action" where
  "demo_looping_action =
     (demo_action ''never'' False [])\<lparr>next_action_index_if_condition_not_met := Some 0\<rparr>"

text \<open>The actions of a job: two of its six items are no actions.\<close>

definition demo_actions :: "nat action option list" where
  "demo_actions =
     [Some (demo_action ''never'' False []), None, Some (demo_action ''click'' False []),
      Some (demo_action ''broken'' False []), None, Some (demo_action ''never'' False [])]"

section \<open>Theorems\<close>

subsection \<open>The job executor\<close>

lemma deeper_simps [simp]:
  "at_depth_or_deeper d []"
  "at_depth_or_deeper d (e # evs) =
     ((case event_depth e of Some d' \<Rightarrow> d \<le> d' | None \<Rightarrow> False) \<and> at_depth_or_deeper d evs)"
  "at_depth_or_deeper d (evs @ evs') = (at_depth_or_deeper d evs \<and> at_depth_or_deeper d evs')"
  by (simp_all add: at_depth_or_deeper_def)

lemma deeper_mono: "at_depth_or_deeper d' evs \<Longrightarrow> d \<le> d' \<Longrightarrow> at_depth_or_deeper d evs"
  unfolding at_depth_or_deeper_def
  by (induction evs) (auto split: option.splits)

lemma events_depth:
  "at_depth_or_deeper d (snd (snd (execute_action_with_fallback env a idx d s)))"
  "at_depth_or_deeper d (snd (snd (retry_loop env a idx d r m s)))"
  "at_depth_or_deeper (Suc d) (snd (snd (fallback_loop env ds idx d s)))"
proof (induction env a idx d s and env a idx d r m s and env ds idx d s
       rule: execute_action_with_fallback_retry_loop_fallback_loop.induct)
  case (1 env a idx d s)
  then show ?case
    by (subst execute_action_with_fallback.simps) auto
next
  case (2 env a idx d r m s)
  have ih1: "at_depth_or_deeper d (snd (snd (retry_loop env a idx d (r - 1) met
                 (wait_stop env ABSOLUTE_ACTION_RETRY_INTERVAL (note_click a met s1)))))"
    if "0 < r" "is_executing s" "\<not> stop_event s" "execute env a s = (Action_returned met, s1)"
       "is_executing (note_click a met s1)" "\<not> met" "is_absolute a" "0 < r - 1"
       "\<not> stop_event (wait_stop env ABSOLUTE_ACTION_RETRY_INTERVAL (note_click a met s1))"
    for met s1
    by (rule 2(1)) (use that in auto)
  have ih2: "at_depth_or_deeper d (snd (snd (fallback_loop env (fallback_action_sequence a) idx d
                 (note_click a met s1))))"
    if "0 < r" "is_executing s" "\<not> stop_event s" "execute env a s = (Action_returned met, s1)"
       "is_executing (note_click a met s1)" "\<not> met" "\<not> (is_absolute a \<and> 0 < r - 1)"
       "fallback_action_sequence a \<noteq> []"
    for met s1
    by (rule deeper_mono, rule 2(2)) (use that in auto)
  show ?case
  proof (cases "0 < r \<and> is_executing s \<and> \<not> stop_event s")
    case False
    then show ?thesis by (auto simp: retry_loop.simps)
  next
    case True
    obtain oc s1 where ex: "execute env a s = (oc, s1)" by (cases "execute env a s")
    show ?thesis
    proof (cases oc)
      case (Action_raised e)
      with True ex show ?thesis by (simp add: retry_loop.simps)
    next
      case (Action_returned met)
      with True ex ih1 [of met s1] ih2 [of met s1] show ?thesis
        by (subst retry_loop.simps) (auto simp: Let_def split: prod.splits)
    qed
  qed
next
  case (3 env idx d s)
  then show ?case by (simp add: fallback_loop.simps)
next
  case (4 env x later idx d s)
  show ?case
  proof (cases "is_executing s \<and> \<not> stop_event s")
    case False
    then show ?thesis by (auto simp: fallback_loop.simps)
  next
    case True
    show ?thesis
    proof (cases "create_action env x")
      case (Created fa)
      obtain met nxt s1 evs where
        ex: "execute_action_with_fallback env fa idx (d + 1) s = ((met, nxt), s1, evs)"
        by (cases "execute_action_with_fallback env fa idx (d + 1) s") auto
      have e1: "at_depth_or_deeper (Suc d) evs"
        using 4(1) [of fa] True Created ex by simp
      have e2: "at_depth_or_deeper (Suc d) (snd (snd (fallback_loop env later idx d s1)))"
        if "\<not> met"
        by (rule 4(2) [of fa _ _ _ nxt _ evs]) (use True Created ex that in auto)
      from True Created ex e1 e2 show ?thesis
        by (subst fallback_loop.simps) (auto split: prod.splits)
    next
      case Not_an_action
      with True 4(3) show ?thesis by (subst fallback_loop.simps) auto
    next
      case Create_raised
      with True 4(4) show ?thesis by (subst fallback_loop.simps) auto
    qed
  qed
qed

lemma deeper_events_at: "at_depth_or_deeper (Suc d) evs \<Longrightarrow> events_at d evs = []"
  unfolding at_depth_or_deeper_def events_at_def
  by (induction evs) (auto split: option.splits)

lemma deeper_dispatches: "at_depth_or_deeper d evs \<Longrightarrow> dispatches evs = []"
  unfolding at_depth_or_deeper_def
  by (induction evs rule: dispatches.induct) auto

lemma fallback_events_at:
  "fallback_loop env ds idx d s = (ok, s', evs) \<Longrightarrow> events_at d evs = []"
  using events_depth(3) [of d env ds idx s] by (simp add: deeper_events_at)

lemma events_at_simps [simp]:
  "events_at d [] = []"
  "events_at d (Executed d a oc # evs) = Executed d a oc # events_at d evs"
  "events_at d (Waited d t # evs) = Waited d t # events_at d evs"
  by (simp_all add: events_at_def)

text \<open>One iteration of the retry loop, case by case.\<close>

lemma retry_loop_cases:
  assumes "retry_loop env a idx d (Suc r) m s = (res, s', evs)"
  obtains
    (not_running) "\<not> is_executing s \<or> stop_event s"
      "res = (m, idx + 1)" "s' = s\<lparr>is_executing := False\<rparr>" "evs = []"
  | (raised) e s1 where "is_executing s" "\<not> stop_event s"
      "execute env a s = (Action_raised e, s1)"
      "res = (False, - 1)" "s' = s1\<lparr>is_executing := False, stop_event := True\<rparr>"
      "evs = [Executed d a (Action_raised e)]"
  | (stopped) met s1 where "is_executing s" "\<not> stop_event s"
      "execute env a s = (Action_returned met, s1)" "\<not> is_executing (note_click a met s1)"
      "res = (met, idx + 1)" "s' = note_click a met s1"
      "evs = [Executed d a (Action_returned met)]"
  | (met) s1 where "is_executing s" "\<not> stop_event s"
      "execute env a s = (Action_returned True, s1)" "is_executing (note_click a True s1)"
      "res = (True, branch_target (next_action_index_if_condition_met a) idx)"
      "s' = note_click a True s1" "evs = [Executed d a (Action_returned True)]"
  | (wait_stopped) s1 where "is_executing s" "\<not> stop_event s"
      "execute env a s = (Action_returned False, s1)" "is_executing s1"
      "is_absolute a" "0 < r"
      "stop_event (wait_stop env ABSOLUTE_ACTION_RETRY_INTERVAL s1)"
      "res = (False, idx + 1)"
      "s' = (wait_stop env ABSOLUTE_ACTION_RETRY_INTERVAL s1)\<lparr>is_executing := False\<rparr>"
      "evs = [Executed d a (Action_returned False), Waited d ABSOLUTE_ACTION_RETRY_INTERVAL]"
  | (again) s1 evs' where "is_executing s" "\<not> stop_event s"
      "execute env a s = (Action_returned False, s1)" "is_executing s1"
      "is_absolute a" "0 < r"
      "\<not> stop_event (wait_stop env ABSOLUTE_ACTION_RETRY_INTERVAL s1)"
      "retry_loop env a idx d r False (wait_stop env ABSOLUTE_ACTION_RETRY_INTERVAL s1)
         = (res, s', evs')"
      "evs = Executed d a (Action_returned False) # Waited d ABSOLUTE_ACTION_RETRY_INTERVAL # evs'"
  | (fallbacks) s1 ok evs' where "is_executing s" "\<not> stop_event s"
      "execute env a s = (Action_returned False, s1)" "is_executing s1"
      "\<not> (is_absolute a \<and> 0 < r)" "fallback_action_sequence a \<noteq> []"
      "fallback_loop env (fallback_action_sequence a) idx d s1 = (ok, s', evs')"
      "res = (ok, branch_target (next_action_index_if_condition_not_met a) idx)"
      "evs = Executed d a (Action_returned False) # evs'"
  | (not_met) s1 where "is_executing s" "\<not> stop_event s"
      "execute env a s = (Action_returned False, s1)" "is_executing s1"
      "\<not> (is_absolute a \<and> 0 < r)" "fallback_action_sequence a = []"
      "res = (False, branch_target (next_action_index_if_condition_not_met a) idx)"
      "s' = s1" "evs = [Executed d a (Action_returned False)]"
proof (cases "\<not> is_executing s \<or> stop_event s")
  case True
  with assms not_running show ?thesis by (auto simp: retry_loop.simps)
next
  case running: False
  obtain oc s1 where ex: "execute env a s = (oc, s1)" by (cases "execute env a s")
  show ?thesis
  proof (cases oc)
    case (Action_raised e)
    with assms running ex raised show ?thesis by (auto simp: retry_loop.simps)
  next
    case (Action_returned b)
    have nc: "note_click a False s1 = s1" by (simp add: note_click_def)
    show ?thesis
    proof (cases "is_executing (note_click a b s1)")
      case False
      with assms running ex Action_returned stopped show ?thesis
        by (auto simp: retry_loop.simps Let_def)
    next
      case exec: True
      show ?thesis
      proof (cases b)
        case True
        with assms running ex Action_returned exec met show ?thesis
          by (auto simp: retry_loop.simps Let_def)
      next
        case False
        show ?thesis
        proof (cases "is_absolute a \<and> 0 < r")
          case True
          show ?thesis
          proof (cases "stop_event (wait_stop env ABSOLUTE_ACTION_RETRY_INTERVAL s1)")
            case True
            with assms running ex Action_returned exec False \<open>is_absolute a \<and> 0 < r\<close> nc
              wait_stopped
            show ?thesis by (auto simp: retry_loop.simps Let_def)
          next
            case nostop: False
            obtain r' s4 evs' where
              "retry_loop env a idx d r False (wait_stop env ABSOLUTE_ACTION_RETRY_INTERVAL s1)
                 = (r', s4, evs')"
              by (cases "retry_loop env a idx d r False
                           (wait_stop env ABSOLUTE_ACTION_RETRY_INTERVAL s1)") auto
            with assms running ex Action_returned exec False True nc nostop again
            show ?thesis by (auto simp: retry_loop.simps Let_def)
          qed
        next
          case last: False
          show ?thesis
          proof (cases "fallback_action_sequence a = []")
            case True
            with assms running ex Action_returned exec False last nc not_met
            show ?thesis by (auto simp: retry_loop.simps Let_def)
          next
            case fb: False
            obtain ok s3 evs' where
              "fallback_loop env (fallback_action_sequence a) idx d s1 = (ok, s3, evs')"
              by (cases "fallback_loop env (fallback_action_sequence a) idx d s1") auto
            with assms running ex Action_returned exec False last nc fb fallbacks
            show ?thesis by (auto simp: retry_loop.simps Let_def)
          qed
        qed
      qed
    qed
  qed
qed

lemma retry_loop_0:
  "retry_loop env a idx d 0 m s =
     ((False, branch_target (next_action_index_if_condition_not_met a) idx), s, [])"
  by (simp add: retry_loop.simps)

lemma retry_loop_own_events:
  "retry_loop env a idx d r m s = (res, s', evs) \<Longrightarrow>
   retried d a (events_at d evs) \<and>
   length (outcomes (events_at d evs)) \<le> (if is_absolute a then r else 1)"
proof (induction r arbitrary: m s res s' evs)
  case 0
  then show ?case by (simp add: retry_loop_0)
next
  case (Suc r)
  from Suc.prems show ?case
  proof (cases rule: retry_loop_cases)
    case (again s1 evs')
    from Suc.IH [OF again(8)] again(5,9) show ?thesis by simp
  next
    case (fallbacks s1 ok evs')
    from fallback_events_at [OF fallbacks(7)] fallbacks(9) show ?thesis by simp
  qed simp_all
qed

lemma retry_loop_next:
  "retry_loop env a idx d r m s = ((met, nxt), s', evs) \<Longrightarrow> 0 < r \<Longrightarrow> is_executing s' \<Longrightarrow>
   outcomes (events_at d evs) \<noteq> [] \<and>
   (\<exists>b. last (outcomes (events_at d evs)) = Action_returned b \<and>
        nxt = (if b then branch_target (next_action_index_if_condition_met a) idx
               else branch_target (next_action_index_if_condition_not_met a) idx))"
proof (induction r arbitrary: m s evs)
  case 0
  then show ?case by simp
next
  case (Suc r)
  from Suc.prems(1) show ?case
  proof (cases rule: retry_loop_cases)
    case (again s1 evs')
    from Suc.IH [OF again(8) again(6) Suc.prems(3)] again(9) show ?thesis by simp
  next
    case (fallbacks s1 ok evs')
    from fallback_events_at [OF fallbacks(7)] fallbacks(8,9) show ?thesis by auto
  qed (use Suc.prems(3) in auto)
qed

lemma retry_loop_once:
  assumes "retry_loop env a idx d (Suc r) m s = (res, s', evs)"
      and "\<not> is_absolute a" and "is_executing s" and "\<not> stop_event s"
  shows "length (outcomes (events_at d evs)) = 1"
  using assms(1)
proof (cases rule: retry_loop_cases)
  case (fallbacks s1 ok evs')
  from fallback_events_at [OF fallbacks(7)] fallbacks(9) show ?thesis by simp
qed (use assms in simp_all)


lemma fallback_loop_not_running:
  "\<not> is_executing s \<or> stop_event s \<Longrightarrow> fallback_loop env ds idx d s = (False, s, [])"
  by (cases ds) (auto simp: fallback_loop.simps)

lemma fallback_loop_append:
  "fallback_loop env (xs @ ys) idx d s =
     (case fallback_loop env xs idx d s of
        (ok, s1, evs1) \<Rightarrow>
          if ok then (True, s1, evs1)
          else (case fallback_loop env ys idx d s1 of
                  (ok2, s2, evs2) \<Rightarrow> (ok2, s2, evs1 @ evs2)))"
proof (induction xs arbitrary: s)
  case Nil
  then show ?case by (simp add: fallback_loop.simps split: prod.splits)
next
  case (Cons x xs)
  show ?case
  proof (cases "\<not> is_executing s \<or> stop_event s")
    case True
    then show ?thesis
      using fallback_loop_not_running [of s env]
      by (simp split: prod.splits)
  next
    case False
    show ?thesis
    proof (cases "create_action env x")
      case (Created fa)
      obtain met nxt s1 evs where
        ex: "execute_action_with_fallback env fa idx (d + 1) s = ((met, nxt), s1, evs)"
        by (cases "execute_action_with_fallback env fa idx (d + 1) s") auto
      show ?thesis
        using False Created ex Cons.IH [of s1]
        by (simp add: fallback_loop.simps split: prod.splits)
    next
      case Not_an_action
      with False Cons.IH [of s] show ?thesis by (simp add: fallback_loop.simps)
    next
      case Create_raised
      with False Cons.IH [of s] show ?thesis by (simp add: fallback_loop.simps)
    qed
  qed
qed

lemma fallback_loop_single:
  "fallback_loop env [x] idx d s =
     (if \<not> is_executing s \<or> stop_event s then (False, s, [])
      else (case create_action env x of
              Created fa \<Rightarrow>
                (case execute_action_with_fallback env fa idx (d + 1) s of
                   ((met, nxt), s1, evs) \<Rightarrow> (met, s1, evs))
            | Not_an_action \<Rightarrow> (False, s, [])
            | Create_raised \<Rightarrow> (False, s, [])))"
  by (auto simp: fallback_loop.simps split: created.splits prod.splits)

lemma final_attempt_runs_fallbacks:
  assumes "is_executing s" and "\<not> stop_event s"
      and "execute env a s = (Action_returned False, s1)" and "is_executing s1"
      and "fallback_action_sequence a \<noteq> []" and "\<not> is_absolute a \<or> r = 1"
      and "0 < r"
  shows "retry_loop env a idx d r m s =
           (case fallback_loop env (fallback_action_sequence a) idx d s1 of
              (ok, s2, evs) \<Rightarrow>
                ((ok, branch_target (next_action_index_if_condition_not_met a) idx), s2,
                 Executed d a (Action_returned False) # evs))"
  using assms
  by (subst retry_loop.simps) (auto simp: Let_def note_click_def split: prod.splits)


lemma ends_with_two:
  assumes "2 \<le> length h" and "last h = x" and "last (butlast h) = x"
  shows "\<exists>h0. h = h0 @ [x, x]"
proof -
  from assms(1) have "h \<noteq> []" "butlast h \<noteq> []" by (auto simp: butlast_conv_take)
  then have "h = butlast (butlast h) @ [last (butlast h), last h]"
    by (metis append_butlast_last_id append_Cons append_Nil append_assoc)
  with assms(2,3) show ?thesis by metis
qed

lemma detection_fires:
  assumes "2 \<le> length h" and "last h = x" and "last (butlast h) = x"
  shows "loop_detected (record_signature h x) x"
proof -
  from ends_with_two [OF assms] obtain h0 where h: "h = h0 @ [x, x]" by blast
  show ?thesis
  proof (cases "length (h @ [x]) > MAX_HISTORY_LENGTH")
    case False
    then show ?thesis
      by (simp add: h record_signature_def loop_detected_def
          MIN_REPETITIONS_FOR_LOOP_DETECTION_def)
  next
    case True
    then have "h0 \<noteq> []" by (auto simp: h MAX_HISTORY_LENGTH_def)
    then have "tl (h @ [x]) = tl h0 @ [x, x, x]" by (simp add: h)
    with True show ?thesis
      by (simp add: record_signature_def loop_detected_def Let_def
          MIN_REPETITIONS_FOR_LOOP_DETECTION_def)
  qed
qed

lemma no_three_snoc:
  "no_three_in_a_row (xs @ [w]) =
     (no_three_in_a_row xs \<and> \<not> (2 \<le> length xs \<and> last xs = w \<and> last (butlast xs) = w))"
  by (induction xs rule: no_three_in_a_row.induct) auto

lemma dispatches_append: "dispatches (evs @ evs') = dispatches evs @ dispatches evs'"
  by (induction evs rule: dispatches.induct) auto

lemma execute_no_dispatch:
  "execute_action_with_fallback env a idx d s = (res, s', evs) \<Longrightarrow> dispatches evs = []"
  using events_depth(1) [of d env a idx s] by (auto dest: deeper_dispatches)

text \<open>The history holds the last signatures dispatched: all of them, or at least two.\<close>

lemma history_step:
  assumes "D = pre @ h" and "pre = [] \<or> 2 \<le> length h"
  shows "\<exists>pre'. D @ [x] = pre' @ record_signature h x \<and>
           (pre' = [] \<or> 2 \<le> length (record_signature h x))"
proof (cases "length (h @ [x]) > MAX_HISTORY_LENGTH")
  case False
  with assms show ?thesis by (auto simp: record_signature_def)
next
  case True
  then have "h \<noteq> []" by (auto simp: MAX_HISTORY_LENGTH_def)
  then have "D @ [x] = (pre @ [hd h]) @ tl (h @ [x])"
    using assms(1) by (cases h) auto
  moreover have "2 \<le> length (tl (h @ [x]))"
    using True by (simp add: MAX_HISTORY_LENGTH_def)
  moreover have "record_signature h x = tl (h @ [x])"
    using True by (simp add: record_signature_def)
  ultimately show ?thesis by metis
qed

lemma history_tail:
  assumes "D = pre @ h" and "pre = [] \<or> 2 \<le> length h"
      and "2 \<le> length D" and "last D = x" and "last (butlast D) = x"
  shows "2 \<le> length h \<and> last h = x \<and> last (butlast h) = x"
proof (cases "pre = []")
  case True
  with assms show ?thesis by simp
next
  case False
  with assms(2) have len: "2 \<le> length h" by simp
  then have "h \<noteq> []" "butlast h \<noteq> []" by (auto simp: butlast_conv_take)
  with assms(1,4,5) len show ?thesis by (simp add: butlast_append)
qed

lemma loop_dispatches:
  assumes "no_three_in_a_row D" and "D = pre @ h" and "pre = [] \<or> 2 \<le> length h"
  shows "no_three_in_a_row
           (D @ dispatches (snd (snd (action_sequence_loop fuel env actions_list idx h s))))"
  using assms
proof (induction fuel arbitrary: D pre h idx s)
  case 0
  then show ?case by (simp add: action_sequence_loop.simps)
next
  case (Suc fuel)
  show ?case
  proof (cases "0 \<le> idx \<and> idx < int (length actions_list) \<and> is_executing s \<and> \<not> stop_event s")
    case False
    with Suc.prems(1) show ?thesis by (auto simp: action_sequence_loop.simps)
  next
    case True
    show ?thesis
    proof (cases "actions_list ! nat idx")
      case None
      with True Suc.IH [OF Suc.prems] show ?thesis
        by (simp add: action_sequence_loop.simps)
    next
      case (Some a)
      let ?sig = "(idx, action_type a, condition_id a)"
      let ?h2 = "record_signature h ?sig"
      show ?thesis
      proof (cases "loop_detected ?h2 ?sig")
        case det: True
        with True Some Suc.prems(1) show ?thesis
          by (simp add: action_sequence_loop.simps Let_def)
      next
        case nodet: False
        have "\<not> (2 \<le> length D \<and> last D = ?sig \<and> last (butlast D) = ?sig)"
        proof
          assume "2 \<le> length D \<and> last D = ?sig \<and> last (butlast D) = ?sig"
          with history_tail [OF Suc.prems(2,3)]
          have "2 \<le> length h \<and> last h = ?sig \<and> last (butlast h) = ?sig" by blast
          with detection_fires [of h ?sig] nodet show False by blast
        qed
        with Suc.prems(1) have nt: "no_three_in_a_row (D @ [?sig])"
          by (simp add: no_three_snoc)
        from history_step [OF Suc.prems(2,3), of ?sig] obtain pre' where
          pre': "D @ [?sig] = pre' @ ?h2" "pre' = [] \<or> 2 \<le> length ?h2" by blast
        obtain met nxt s1 evs where
          ex: "execute_action_with_fallback env a idx 0 s = ((met, nxt), s1, evs)"
          by (cases "execute_action_with_fallback env a idx 0 s") auto
        have nd: "dispatches evs = []" by (rule execute_no_dispatch [OF ex])
        show ?thesis
        proof (cases "nxt = - 1")
          case True
          with \<open>0 \<le> idx \<and> _\<close> Some nodet ex nd nt show ?thesis
            by (simp add: action_sequence_loop.simps Let_def)
        next
          case False
          obtain st s2 evs2 where
            rec: "action_sequence_loop fuel env actions_list nxt ?h2 s1 = (st, s2, evs2)"
            by (cases "action_sequence_loop fuel env actions_list nxt ?h2 s1") auto
          from Suc.IH [OF nt pre', of nxt s1] rec
          have "no_three_in_a_row ((D @ [?sig]) @ dispatches evs2)" by simp
          with True Some nodet ex nd False rec show ?thesis
            by (simp add: action_sequence_loop.simps Let_def dispatches_append)
        qed
      qed
    qed
  qed
qed


lemmas demo_run_simps =
  execute_action_with_fallback.simps retry_loop.simps fallback_loop.simps
  action_sequence_loop.simps record_signature_def loop_detected_def
  demo_executor_env_def demo_execute_def demo_create_action_def demo_action_def demo_state_def
  demo_looping_action_def
  MAX_FALLBACK_DEPTH_def ABSOLUTE_ACTION_MAX_RETRIES_def MAX_HISTORY_LENGTH_def
  MIN_REPETITIONS_FOR_LOOP_DETECTION_def note_click_def branch_target_def Let_def
  events_at_def

lemma returned_index_follows_result:
  assumes "execute_action_with_fallback env a idx d s = ((met, nxt), s', evs)"
      and "d \<le> MAX_FALLBACK_DEPTH" and "is_executing s'"
  shows "outcomes (events_at d evs) \<noteq> [] \<and>
         (\<exists>b. last (outcomes (events_at d evs)) = Action_returned b \<and>
              nxt = (if b then branch_target (next_action_index_if_condition_met a) idx
                     else branch_target (next_action_index_if_condition_not_met a) idx))"
proof -
  let ?r = "if is_absolute a then ABSOLUTE_ACTION_MAX_RETRIES else 1"
  have "retry_loop env a idx d ?r False s = ((met, nxt), s', evs)"
    using assms(1,2) by (simp add: execute_action_with_fallback.simps)
  moreover have "0 < ?r" by (simp add: ABSOLUTE_ACTION_MAX_RETRIES_def)
  ultimately show ?thesis
    using retry_loop_next [of env a idx d ?r False s met nxt s' evs] assms(3) by blast
qed

lemma branch_target_not_stop: "0 \<le> idx \<Longrightarrow> branch_target t idx \<noteq> - 1"
  by (cases t) (auto simp: branch_target_def)

lemma loop_iteration:
  assumes "0 \<le> idx" and "idx < int (length actions_list)"
      and "actions_list ! nat idx = Some a"
      and "is_executing s" and "\<not> stop_event s"
      and "\<not> loop_detected (record_signature h (idx, action_type a, condition_id a))
               (idx, action_type a, condition_id a)"
      and "execute_action_with_fallback env a idx 0 s = ((met, nxt), s', evs)"
  shows "action_sequence_loop (Suc fuel) env actions_list idx h s =
           (if nxt = - 1 then
              (Sequence_ended, s'\<lparr>is_executing := False, stop_event := True\<rparr>,
               Dispatched (idx, action_type a, condition_id a) # evs)
            else
              (case action_sequence_loop fuel env actions_list nxt
                      (record_signature h (idx, action_type a, condition_id a)) s' of
                 (status, s2, evs2) \<Rightarrow>
                   (status, s2, Dispatched (idx, action_type a, condition_id a) # evs @ evs2)))"
  using assms by (simp add: action_sequence_loop.simps Let_def)

lemma loop_stopped:
  "\<not> is_executing s \<Longrightarrow>
   \<exists>status s2. action_sequence_loop fuel env actions_list idx h s = (status, s2, [])"
  by (cases fuel) (simp_all add: action_sequence_loop.simps)

text \<open>
  C1. An iteration of the loop over the actions that executes the action at the
  current index (the index is in range, the item is an action, the job is running and
  the loop detection does not fire) calls \<^verbatim>\<open>_execute_action_with_fallback\<close> at depth 0.
  When the job is still executing after the call, the action's \<^verbatim>\<open>execute\<close> was invoked,
  its last invocation returned a boolean \<open>b\<close>, and the index the call returns is: for
  \<open>b\<close> true, \<^verbatim>\<open>next_action_index_if_condition_met\<close> where that is a non-negative
  integer; for \<open>b\<close> false, \<^verbatim>\<open>next_action_index_if_condition_not_met\<close> where that is a
  non-negative integer; the current index plus one in every other case. The loop then
  goes on at exactly that index: the run from the current index is the dispatch of the
  action, the events of the call, and the run of the loop from the returned index in
  the state the call left. When the job is no longer executing after the call (an
  exception or a stop signal), the loop runs nothing more.
\<close>

theorem next_index_follows_condition_result:
  assumes "0 \<le> idx" and "idx < int (length actions_list)"
      and "actions_list ! nat idx = Some a"
      and "is_executing s" and "\<not> stop_event s"
      and "\<not> loop_detected (record_signature h (idx, action_type a, condition_id a))
               (idx, action_type a, condition_id a)"
      and "execute_action_with_fallback env a idx 0 s = ((met, nxt), s', evs)"
  shows "(is_executing s' \<longrightarrow>
           outcomes (events_at 0 evs) \<noteq> [] \<and>
           (\<exists>b. last (outcomes (events_at 0 evs)) = Action_returned b \<and>
                nxt = (if b then (case next_action_index_if_condition_met a of
                                    Some n \<Rightarrow> if 0 \<le> n then n else idx + 1
                                  | None \<Rightarrow> idx + 1)
                       else (case next_action_index_if_condition_not_met a of
                               Some n \<Rightarrow> if 0 \<le> n then n else idx + 1
                             | None \<Rightarrow> idx + 1))) \<and>
           action_sequence_loop (Suc fuel) env actions_list idx h s =
             (case action_sequence_loop fuel env actions_list nxt
                     (record_signature h (idx, action_type a, condition_id a)) s' of
                (status, s2, evs2) \<Rightarrow>
                  (status, s2, Dispatched (idx, action_type a, condition_id a) # evs @ evs2))) \<and>
         (\<not> is_executing s' \<longrightarrow>
           snd (snd (action_sequence_loop (Suc fuel) env actions_list idx h s)) =
             Dispatched (idx, action_type a, condition_id a) # evs)"
proof (intro conjI impI)
  assume running: "is_executing s'"
  from returned_index_follows_result [OF assms(7) _ running]
  obtain b where ne: "outcomes (events_at 0 evs) \<noteq> []"
    and b: "last (outcomes (events_at 0 evs)) = Action_returned b"
           "nxt = (if b then branch_target (next_action_index_if_condition_met a) idx
                   else branch_target (next_action_index_if_condition_not_met a) idx)"
    by auto
  show "outcomes (events_at 0 evs) \<noteq> []" by (rule ne)
  show "\<exists>b. last (outcomes (events_at 0 evs)) = Action_returned b \<and>
                nxt = (if b then (case next_action_index_if_condition_met a of
                                    Some n \<Rightarrow> if 0 \<le> n then n else idx + 1
                                  | None \<Rightarrow> idx + 1)
                       else (case next_action_index_if_condition_not_met a of
                               Some n \<Rightarrow> if 0 \<le> n then n else idx + 1
                             | None \<Rightarrow> idx + 1))"
    using b by (intro exI [of _ b]) (simp add: branch_target_def)
  have "nxt \<noteq> - 1"
    using b(2) branch_target_not_stop [OF assms(1)] by (cases b) simp_all
  then show "action_sequence_loop (Suc fuel) env actions_list idx h s =
             (case action_sequence_loop fuel env actions_list nxt
                     (record_signature h (idx, action_type a, condition_id a)) s' of
                (status, s2, evs2) \<Rightarrow>
                  (status, s2, Dispatched (idx, action_type a, condition_id a) # evs @ evs2))"
    using loop_iteration [OF assms, of fuel] by simp
next
  assume stopped: "\<not> is_executing s'"
  from loop_stopped [OF stopped]
  obtain status s2 where
    "action_sequence_loop fuel env actions_list nxt
       (record_signature h (idx, action_type a, condition_id a)) s' = (status, s2, [])"
    by blast
  then show "snd (snd (action_sequence_loop (Suc fuel) env actions_list idx h s)) =
             Dispatched (idx, action_type a, condition_id a) # evs"
    using loop_iteration [OF assms, of fuel] by simp
qed

theorem next_index_follows_condition_result_witness:
  "demo_actions ! nat 2 = Some (demo_action ''click'' False []) \<and>
   demo_actions ! nat 5 = Some (demo_action ''never'' False []) \<and>
   demo_actions ! nat 3 = Some (demo_action ''broken'' False []) \<and>
   is_executing demo_state \<and> \<not> stop_event demo_state \<and>
   \<not> loop_detected (record_signature [] (2, ''click'', None)) (2, ''click'', None) \<and>
   \<not> loop_detected (record_signature [] (5, ''never'', None)) (5, ''never'', None) \<and>
   \<not> loop_detected (record_signature [] (3, ''broken'', None)) (3, ''broken'', None) \<and>
   execute_action_with_fallback demo_executor_env (demo_action ''click'' False []) 2 0 demo_state
     = ((True, 5), demo_state\<lparr>world := 1\<rparr>,
        [Executed 0 (demo_action ''click'' False []) (Action_returned True)]) \<and>
   execute_action_with_fallback demo_executor_env (demo_action ''never'' False []) 5 0 demo_state
     = ((False, 6), demo_state\<lparr>world := 1\<rparr>,
        [Executed 0 (demo_action ''never'' False []) (Action_returned False)]) \<and>
   execute_action_with_fallback demo_executor_env (demo_action ''broken'' False []) 3 0 demo_state
     = ((False, - 1), demo_state\<lparr>world := 1, is_executing := False, stop_event := True\<rparr>,
        [Executed 0 (demo_action ''broken'' False []) (Action_raised RuntimeError)]) \<and>
   is_executing (demo_state\<lparr>world := 1\<rparr>) \<and>
   \<not> is_executing (demo_state\<lparr>world := 1, is_executing := False, stop_event := True\<rparr>) \<and>
   action_sequence_loop (Suc (Suc (Suc 0))) demo_executor_env demo_actions 2 [] demo_state
     = (Sequence_ended, demo_state\<lparr>world := 2\<rparr>,
        [Dispatched (2, ''click'', None),
         Executed 0 (demo_action ''click'' False []) (Action_returned True),
         Dispatched (5, ''never'', None),
         Executed 0 (demo_action ''never'' False []) (Action_returned False)]) \<and>
   action_sequence_loop (Suc (Suc 0)) demo_executor_env demo_actions 5 [] demo_state
     = (Sequence_ended, demo_state\<lparr>world := 1\<rparr>,
        [Dispatched (5, ''never'', None),
         Executed 0 (demo_action ''never'' False []) (Action_returned False)]) \<and>
   snd (snd (action_sequence_loop (Suc (Suc 0)) demo_executor_env demo_actions 3 [] demo_state))
     = [Dispatched (3, ''broken'', None),
        Executed 0 (demo_action ''broken'' False []) (Action_raised RuntimeError)]"
proof -
  have a: "demo_actions ! nat 2 = Some (demo_action ''click'' False [])"
    "demo_actions ! nat 5 = Some (demo_action ''never'' False [])"
    "demo_actions ! nat 3 = Some (demo_action ''broken'' False [])"
    by (simp_all add: demo_actions_def)
  have len: "(2::int) < int (length demo_actions)" "(5::int) < int (length demo_actions)"
    "(3::int) < int (length demo_actions)"
    by (simp_all add: demo_actions_def)
  have s: "is_executing demo_state" "\<not> stop_event demo_state"
    "is_executing (demo_state\<lparr>world := 1\<rparr>)"
    "\<not> is_executing (demo_state\<lparr>world := 1, is_executing := False, stop_event := True\<rparr>)"
    by (simp_all add: demo_state_def)
  have t: "action_type (demo_action ty ab fs) = ty" "condition_id (demo_action ty ab fs) = None"
    for ty ab fs
    by (simp_all add: demo_action_def)
  have l: "\<not> loop_detected (record_signature [] sig) sig" for sig :: action_signature
    by (simp add: loop_detected_def record_signature_def MAX_HISTORY_LENGTH_def
          MIN_REPETITIONS_FOR_LOOP_DETECTION_def)
  have r1:
    "execute_action_with_fallback demo_executor_env (demo_action ''click'' False []) 2 0 demo_state
     = ((True, 5), demo_state\<lparr>world := 1\<rparr>,
        [Executed 0 (demo_action ''click'' False []) (Action_returned True)])"
    by (simp add: demo_run_simps)
  have r2:
    "execute_action_with_fallback demo_executor_env (demo_action ''never'' False []) 5 0 demo_state
     = ((False, 6), demo_state\<lparr>world := 1\<rparr>,
        [Executed 0 (demo_action ''never'' False []) (Action_returned False)])"
    by (simp add: demo_run_simps)
  have r3:
    "execute_action_with_fallback demo_executor_env (demo_action ''broken'' False []) 3 0 demo_state
     = ((False, - 1), demo_state\<lparr>world := 1, is_executing := False, stop_event := True\<rparr>,
        [Executed 0 (demo_action ''broken'' False []) (Action_raised RuntimeError)])"
    by (simp add: demo_run_simps)
  have rest:
    "action_sequence_loop (Suc (Suc 0)) demo_executor_env demo_actions 5 [(2, ''click'', None)]
       (demo_state\<lparr>world := 1\<rparr>)
     = (Sequence_ended, demo_state\<lparr>world := 2\<rparr>,
        [Dispatched (5, ''never'', None),
         Executed 0 (demo_action ''never'' False []) (Action_returned False)])"
    "action_sequence_loop (Suc 0) demo_executor_env demo_actions 6 [(5, ''never'', None)]
       (demo_state\<lparr>world := 1\<rparr>)
     = (Sequence_ended, demo_state\<lparr>world := 1\<rparr>, [])"
    by (simp_all add: demo_run_simps demo_actions_def)
  note c1 = next_index_follows_condition_result
    [of 2 demo_actions "demo_action ''click'' False []" demo_state "[]" demo_executor_env
        True 5 "demo_state\<lparr>world := 1\<rparr>" _ "Suc (Suc 0)"]
  note c2 = next_index_follows_condition_result
    [of 5 demo_actions "demo_action ''never'' False []" demo_state "[]" demo_executor_env
        False 6 "demo_state\<lparr>world := 1\<rparr>" _ "Suc 0"]
  note c3 = next_index_follows_condition_result
    [of 3 demo_actions "demo_action ''broken'' False []" demo_state "[]" demo_executor_env
        False "- 1" "demo_state\<lparr>world := 1, is_executing := False, stop_event := True\<rparr>" _
        "Suc 0"]
  show ?thesis
    using a len s l r1 r2 r3 rest c1 [OF _ len(1) a(1) s(1,2) _ r1] c2 [OF _ len(2) a(2) s(1,2) _ r2]
      c3 [OF _ len(3) a(3) s(1,2) _ r3]
    by (simp add: t record_signature_def MAX_HISTORY_LENGTH_def)
qed

text \<open>
  C2 (as amended). Whatever the depth and the state, the invocations of an action's
  \<^verbatim>\<open>execute\<close> by one call of \<^verbatim>\<open>_execute_action_with_fallback\<close> follow the pattern of
  \<^const>\<open>retried\<close>: each invocation but the last returned False and is followed by one
  wait of the fixed 0.5 s, so no invocation follows one that returned True; there are
  at most 10 of them for an absolute action and at most one otherwise. A non-absolute
  action is invoked exactly once when the depth is at most 3 and the job is running on
  entry; beyond depth 3, or when the job is stopped on entry, nothing is invoked.
\<close>

theorem execute_invocations_bounded:
  assumes "execute_action_with_fallback env a idx d s = (res, s', evs)"
  shows "retried d a (events_at d evs) \<and>
         length (outcomes (events_at d evs)) \<le> (if is_absolute a then 10 else 1) \<and>
         (\<not> is_absolute a \<and> d \<le> 3 \<and> is_executing s \<and> \<not> stop_event s
            \<longrightarrow> length (outcomes (events_at d evs)) = 1) \<and>
         (3 < d \<or> \<not> is_executing s \<or> stop_event s \<longrightarrow> evs = [])"
proof (cases "3 < d")
  case True
  with assms show ?thesis
    by (auto simp: execute_action_with_fallback.simps MAX_FALLBACK_DEPTH_def)
next
  case False
  let ?r = "if is_absolute a then ABSOLUTE_ACTION_MAX_RETRIES else 1"
  have run: "retry_loop env a idx d ?r False s = (res, s', evs)"
    using assms False by (simp add: execute_action_with_fallback.simps MAX_FALLBACK_DEPTH_def)
  have shape: "retried d a (events_at d evs)"
    "length (outcomes (events_at d evs)) \<le> (if is_absolute a then 10 else 1)"
    using retry_loop_own_events [OF run] by (auto simp: ABSOLUTE_ACTION_MAX_RETRIES_def)
  have once: "length (outcomes (events_at d evs)) = 1"
    if "\<not> is_absolute a" "is_executing s" "\<not> stop_event s"
    using retry_loop_once [of env a idx d 0 False s res s' evs] run that by simp
  have none: "evs = []" if "\<not> is_executing s \<or> stop_event s"
    using run that
    by (cases "is_absolute a") (auto simp: retry_loop.simps ABSOLUTE_ACTION_MAX_RETRIES_def)
  from False shape once none show ?thesis by blast
qed


theorem execute_invocations_bounded_witness:
  "execute_action_with_fallback demo_executor_env (demo_action ''third time'' True []) 0 0 demo_state
     = ((True, 5), demo_state\<lparr>world := 3\<rparr>,
        [Executed 0 (demo_action ''third time'' True []) (Action_returned False),
         Waited 0 ABSOLUTE_ACTION_RETRY_INTERVAL,
         Executed 0 (demo_action ''third time'' True []) (Action_returned False),
         Waited 0 ABSOLUTE_ACTION_RETRY_INTERVAL,
         Executed 0 (demo_action ''third time'' True []) (Action_returned True)]) \<and>
   execute_action_with_fallback demo_executor_env (demo_action ''never'' False []) 2 0 demo_state
     = ((False, 3), demo_state\<lparr>world := 1\<rparr>,
        [Executed 0 (demo_action ''never'' False []) (Action_returned False)]) \<and>
   \<not> is_absolute (demo_action ''never'' False []) \<and> is_executing demo_state \<and>
   \<not> stop_event demo_state"
proof -
  have r1:
    "execute_action_with_fallback demo_executor_env (demo_action ''third time'' True []) 0 0
       demo_state
     = ((True, 5), demo_state\<lparr>world := 3\<rparr>,
        [Executed 0 (demo_action ''third time'' True []) (Action_returned False),
         Waited 0 ABSOLUTE_ACTION_RETRY_INTERVAL,
         Executed 0 (demo_action ''third time'' True []) (Action_returned False),
         Waited 0 ABSOLUTE_ACTION_RETRY_INTERVAL,
         Executed 0 (demo_action ''third time'' True []) (Action_returned True)])"
    by (simp add: demo_run_simps)
  have r2:
    "execute_action_with_fallback demo_executor_env (demo_action ''never'' False []) 2 0 demo_state
     = ((False, 3), demo_state\<lparr>world := 1\<rparr>,
        [Executed 0 (demo_action ''never'' False []) (Action_returned False)])"
    by (simp add: demo_run_simps)
  have r3: "\<not> is_absolute (demo_action ''never'' False [])" "is_executing demo_state"
    "\<not> stop_event demo_state"
    by (simp_all add: demo_action_def demo_state_def)
  show ?thesis
    using r1 r2 r3 execute_invocations_bounded [OF r1] execute_invocations_bounded [OF r2]
    by simp
qed

text \<open>
  The claim as it was stated fails beyond the depth limit: the action built from the
  fallback data 4 is not absolute, \<^verbatim>\<open>_execute_action_with_fallback\<close> is called for it
  at depth 4 (inside the run of an action whose fallbacks nest that deep, of which the
  second equation shows the events), and its \<^verbatim>\<open>execute\<close> is not invoked at all.
\<close>

theorem fallback_beyond_depth_limit_not_executed:
  "demo_create_action 4 = Created (demo_action ''never'' False [5]) \<and>
   \<not> is_absolute (demo_action ''never'' False [5]) \<and>
   execute_action_with_fallback demo_executor_env (demo_action ''never'' False [5]) 0 4 demo_state
     = ((False, 1), demo_state, []) \<and>
   execute_action_with_fallback demo_executor_env (demo_action ''never'' False [1]) 0 0 demo_state
     = ((False, 1), demo_state\<lparr>world := 4\<rparr>,
        [Executed 0 (demo_action ''never'' False [1]) (Action_returned False),
         Executed 1 (demo_action ''never'' False [2]) (Action_returned False),
         Executed 2 (demo_action ''never'' False [3]) (Action_returned False),
         Executed 3 (demo_action ''never'' False [4]) (Action_returned False)])"
  by (simp add: demo_run_simps)

text \<open>
  C3. An invocation beyond the depth limit executes nothing and reports False. When the
  last attempt of an action (the only one, for an action that is not absolute) returns
  False and the job goes on, the fallback sequence is run from the state that
  invocation left, and the call reports what the fallback loop reports. The fallback
  loop works through the list in order and ends at the first fallback whose execution
  reports success: run on \<open>xs @ ys\<close>, it is the run on \<open>xs\<close>, followed, only if that
  reported no success, by the run on \<open>ys\<close> from the state reached; run on one item, it
  creates the action and executes it one level deeper, and reports its result.
\<close>

theorem fallbacks_in_order_until_first_success:
  "(MAX_FALLBACK_DEPTH < d \<longrightarrow>
      execute_action_with_fallback env a idx d s = ((False, idx + 1), s, [])) \<and>
   (is_executing s \<and> \<not> stop_event s \<and> execute env a s = (Action_returned False, s1) \<and>
    is_executing s1 \<and> fallback_action_sequence a \<noteq> [] \<and> 0 < r \<and> (is_absolute a \<longrightarrow> r = 1)
      \<longrightarrow> retry_loop env a idx d r m s =
            (case fallback_loop env (fallback_action_sequence a) idx d s1 of
               (ok, s2, evs) \<Rightarrow>
                 ((ok, branch_target (next_action_index_if_condition_not_met a) idx), s2,
                  Executed d a (Action_returned False) # evs))) \<and>
   (is_executing s \<and> \<not> stop_event s \<and> execute env a s = (Action_returned False, s1) \<and>
    is_executing s1 \<and> fallback_action_sequence a \<noteq> [] \<and> \<not> is_absolute a \<and>
    d \<le> MAX_FALLBACK_DEPTH
      \<longrightarrow> execute_action_with_fallback env a idx d s =
            (case fallback_loop env (fallback_action_sequence a) idx d s1 of
               (ok, s2, evs) \<Rightarrow>
                 ((ok, branch_target (next_action_index_if_condition_not_met a) idx), s2,
                  Executed d a (Action_returned False) # evs))) \<and>
   fallback_loop env (xs @ ys) idx d s =
     (case fallback_loop env xs idx d s of
        (ok, s1, evs1) \<Rightarrow>
          if ok then (True, s1, evs1)
          else (case fallback_loop env ys idx d s1 of
                  (ok2, s2, evs2) \<Rightarrow> (ok2, s2, evs1 @ evs2))) \<and>
   fallback_loop env [x] idx d s =
     (if \<not> is_executing s \<or> stop_event s then (False, s, [])
      else (case create_action env x of
              Created fa \<Rightarrow>
                (case execute_action_with_fallback env fa idx (d + 1) s of
                   ((met, nxt), s1, evs) \<Rightarrow> (met, s1, evs))
            | Not_an_action \<Rightarrow> (False, s, [])
            | Create_raised \<Rightarrow> (False, s, [])))"
proof -
  have c1: "MAX_FALLBACK_DEPTH < d \<longrightarrow>
      execute_action_with_fallback env a idx d s = ((False, idx + 1), s, [])"
    by (simp add: execute_action_with_fallback.simps)
  have c2: "retry_loop env a idx d r m s =
            (case fallback_loop env (fallback_action_sequence a) idx d s1 of
               (ok, s2, evs) \<Rightarrow>
                 ((ok, branch_target (next_action_index_if_condition_not_met a) idx), s2,
                  Executed d a (Action_returned False) # evs))"
    if "is_executing s" "\<not> stop_event s" "execute env a s = (Action_returned False, s1)"
       "is_executing s1" "fallback_action_sequence a \<noteq> []" "0 < r" "is_absolute a \<longrightarrow> r = 1"
    for r m
    by (rule final_attempt_runs_fallbacks) (use that in auto)
  have c3: "execute_action_with_fallback env a idx d s =
            (case fallback_loop env (fallback_action_sequence a) idx d s1 of
               (ok, s2, evs) \<Rightarrow>
                 ((ok, branch_target (next_action_index_if_condition_not_met a) idx), s2,
                  Executed d a (Action_returned False) # evs))"
    if "is_executing s" "\<not> stop_event s" "execute env a s = (Action_returned False, s1)"
       "is_executing s1" "fallback_action_sequence a \<noteq> []" "\<not> is_absolute a"
       "d \<le> MAX_FALLBACK_DEPTH"
    using that c2 [of 1 False] by (simp add: execute_action_with_fallback.simps)
  show ?thesis
  proof (intro conjI)
    show "MAX_FALLBACK_DEPTH < d \<longrightarrow>
      execute_action_with_fallback env a idx d s = ((False, idx + 1), s, [])"
      by (rule c1)
    show "is_executing s \<and> \<not> stop_event s \<and> execute env a s = (Action_returned False, s1) \<and>
      is_executing s1 \<and> fallback_action_sequence a \<noteq> [] \<and> 0 < r \<and> (is_absolute a \<longrightarrow> r = 1)
      \<longrightarrow> retry_loop env a idx d r m s =
            (case fallback_loop env (fallback_action_sequence a) idx d s1 of
               (ok, s2, evs) \<Rightarrow>
                 ((ok, branch_target (next_action_index_if_condition_not_met a) idx), s2,
                  Executed d a (Action_returned False) # evs))"
      by (intro impI, elim conjE, rule c2)
    show "is_executing s \<and> \<not> stop_event s \<and> execute env a s = (Action_returned False, s1) \<and>
      is_executing s1 \<and> fallback_action_sequence a \<noteq> [] \<and> \<not> is_absolute a \<and>
      d \<le> MAX_FALLBACK_DEPTH
      \<longrightarrow> execute_action_with_fallback env a idx d s =
            (case fallback_loop env (fallback_action_sequence a) idx d s1 of
               (ok, s2, evs) \<Rightarrow>
                 ((ok, branch_target (next_action_index_if_condition_not_met a) idx), s2,
                  Executed d a (Action_returned False) # evs))"
      by (intro impI, elim conjE, rule c3)
    show "fallback_loop env (xs @ ys) idx d s =
     (case fallback_loop env xs idx d s of
        (ok, s1, evs1) \<Rightarrow>
          if ok then (True, s1, evs1)
          else (case fallback_loop env ys idx d s1 of
                  (ok2, s2, evs2) \<Rightarrow> (ok2, s2, evs1 @ evs2)))"
      by (rule fallback_loop_append)
    show "fallback_loop env [x] idx d s =
     (if \<not> is_executing s \<or> stop_event s then (False, s, [])
      else (case create_action env x of
              Created fa \<Rightarrow>
                (case execute_action_with_fallback env fa idx (d + 1) s of
                   ((met, nxt), s1, evs) \<Rightarrow> (met, s1, evs))
            | Not_an_action \<Rightarrow> (False, s, [])
            | Create_raised \<Rightarrow> (False, s, [])))"
      by (rule fallback_loop_single)
  qed
qed

theorem fallbacks_in_order_until_first_success_witness:
  "MAX_FALLBACK_DEPTH < 4 \<and>
   execute_action_with_fallback demo_executor_env (demo_action ''click'' False []) 0 4 demo_state
     = ((False, 1), demo_state, []) \<and>
   is_executing demo_state \<and> \<not> stop_event demo_state \<and>
   execute demo_executor_env (demo_action ''never'' False [0, 9, 1]) demo_state
     = (Action_returned False, demo_state\<lparr>world := 1\<rparr>) \<and>
   is_executing (demo_state\<lparr>world := 1\<rparr>) \<and>
   fallback_action_sequence (demo_action ''never'' False [0, 9, 1]) \<noteq> [] \<and>
   \<not> is_absolute (demo_action ''never'' False [0, 9, 1]) \<and>
   fallback_loop demo_executor_env ([0, 9] @ [1]) 0 0 (demo_state\<lparr>world := 1\<rparr>)
     = (True, demo_state\<lparr>world := 2\<rparr>,
        [Executed 1 (demo_action ''click'' False []) (Action_returned True)]) \<and>
   execute_action_with_fallback demo_executor_env (demo_action ''never'' False [0, 9, 1]) 0 0
       demo_state
     = ((True, 1), demo_state\<lparr>world := 2\<rparr>,
        [Executed 0 (demo_action ''never'' False [0, 9, 1]) (Action_returned False),
         Executed 1 (demo_action ''click'' False []) (Action_returned True)])"
proof -
  have h: "MAX_FALLBACK_DEPTH < 4" "is_executing demo_state" "\<not> stop_event demo_state"
    "execute demo_executor_env (demo_action ''never'' False [0, 9, 1]) demo_state
       = (Action_returned False, demo_state\<lparr>world := 1\<rparr>)"
    "is_executing (demo_state\<lparr>world := 1\<rparr>)"
    "fallback_action_sequence (demo_action ''never'' False [0, 9, 1]) \<noteq> []"
    "\<not> is_absolute (demo_action ''never'' False [0, 9, 1])"
    by (simp_all add: demo_run_simps)
  have f: "fallback_loop demo_executor_env [0, 9] 0 0 (demo_state\<lparr>world := 1\<rparr>)
     = (True, demo_state\<lparr>world := 2\<rparr>,
        [Executed 1 (demo_action ''click'' False []) (Action_returned True)])"
    by (simp add: demo_run_simps)
  have d0: "(0::nat) \<le> MAX_FALLBACK_DEPTH" by simp
  show ?thesis
    using h f d0
      fallbacks_in_order_until_first_success [of 4 demo_executor_env "demo_action ''click'' False []"
        0 demo_state]
      fallbacks_in_order_until_first_success [of 0 demo_executor_env
        "demo_action ''never'' False [0, 9, 1]" 0 demo_state "demo_state\<lparr>world := 1\<rparr>" 1 False
        "[0, 9]" "[1]", unfolded append.simps]
      fallbacks_in_order_until_first_success [of 0 demo_executor_env
        "demo_action ''never'' False [0, 9, 1]" 0 "demo_state\<lparr>world := 1\<rparr>" _ _ _
        "[0, 9]" "[1]"]
    by (simp add: demo_action_def branch_target_def)
qed

text \<open>
  C4. In one run cycle, however long it runs, the signatures the loop dispatches to
  \<^verbatim>\<open>_execute_action_with_fallback\<close> never hold the same signature three times in a
  row. And when the action about to run has the signature of the last two entries of
  the history, the iteration sets the stop event, clears the flag and ends the loop
  without dispatching or executing anything.
\<close>

theorem no_signature_three_times_in_a_row:
  "no_three_in_a_row
     (dispatches (snd (snd (action_sequence_loop fuel env actions_list 0 [] s)))) \<and>
   (0 \<le> idx \<and> idx < int (length actions_list) \<and> actions_list ! nat idx = Some a \<and>
    is_executing s \<and> \<not> stop_event s \<and> 2 \<le> length h \<and>
    last h = (idx, action_type a, condition_id a) \<and>
    last (butlast h) = (idx, action_type a, condition_id a)
      \<longrightarrow> action_sequence_loop (Suc fuel) env actions_list idx h s =
            (Sequence_ended, s\<lparr>is_executing := False, stop_event := True\<rparr>, []))"
proof -
  have "no_three_in_a_row
     ([] @ dispatches (snd (snd (action_sequence_loop fuel env actions_list 0 [] s))))"
    by (rule loop_dispatches [of "[]" "[]"]) simp_all
  moreover have "action_sequence_loop (Suc fuel) env actions_list idx h s =
            (Sequence_ended, s\<lparr>is_executing := False, stop_event := True\<rparr>, [])"
    if "0 \<le> idx" "idx < int (length actions_list)" "actions_list ! nat idx = Some a"
      "is_executing s" "\<not> stop_event s" "2 \<le> length h"
      "last h = (idx, action_type a, condition_id a)"
      "last (butlast h) = (idx, action_type a, condition_id a)"
    using that detection_fires [of h "(idx, action_type a, condition_id a)"]
    by (simp add: action_sequence_loop.simps Let_def)
  ultimately show ?thesis by simp
qed

theorem no_signature_three_times_in_a_row_witness:
  "action_sequence_loop (Suc (Suc (Suc (Suc 0)))) demo_executor_env [Some demo_looping_action] 0 []
     demo_state
     = (Sequence_ended, demo_state\<lparr>is_executing := False, stop_event := True, world := 2\<rparr>,
        [Dispatched (0, ''never'', None),
         Executed 0 demo_looping_action (Action_returned False),
         Dispatched (0, ''never'', None),
         Executed 0 demo_looping_action (Action_returned False)]) \<and>
   no_three_in_a_row [(0, ''never'', None), (0, ''never'', None) :: action_signature] \<and>
   [Some demo_looping_action] ! nat 0 = Some demo_looping_action \<and>
   is_executing (demo_state\<lparr>world := 2\<rparr>) \<and> \<not> stop_event (demo_state\<lparr>world := 2\<rparr>) \<and>
   action_sequence_loop (Suc (Suc 0)) demo_executor_env [Some demo_looping_action] 0
       [(0, ''never'', None), (0, ''never'', None)] (demo_state\<lparr>world := 2\<rparr>)
     = (Sequence_ended, demo_state\<lparr>world := 2, is_executing := False, stop_event := True\<rparr>, [])"
proof -
  have run: "action_sequence_loop (Suc (Suc (Suc (Suc 0)))) demo_executor_env
       [Some demo_looping_action] 0 [] demo_state
     = (Sequence_ended, demo_state\<lparr>is_executing := False, stop_event := True, world := 2\<rparr>,
        [Dispatched (0, ''never'', None),
         Executed 0 demo_looping_action (Action_returned False),
         Dispatched (0, ''never'', None),
         Executed 0 demo_looping_action (Action_returned False)])"
    by (simp add: demo_run_simps)
  have h: "[Some demo_looping_action] ! nat 0 = Some demo_looping_action"
    "is_executing (demo_state\<lparr>world := 2\<rparr>)" "\<not> stop_event (demo_state\<lparr>world := 2\<rparr>)"
    "action_type demo_looping_action = ''never''" "condition_id demo_looping_action = None"
    by (simp_all add: demo_state_def demo_looping_action_def demo_action_def)
  show ?thesis
    using run h
      no_signature_three_times_in_a_row [of "Suc (Suc (Suc (Suc 0)))" demo_executor_env
        "[Some demo_looping_action]" demo_state 0 demo_looping_action
        "[(0, ''never'', None), (0, ''never'', None)]"]
      no_signature_three_times_in_a_row [of "Suc 0" demo_executor_env
        "[Some demo_looping_action]" "demo_state\<lparr>world := 2\<rparr>" 0 demo_looping_action
        "[(0, ''never'', None), (0, ''never'', None)]"]
    by simp
qed

subsection \<open>OSInteractionClient: sending a request\<close>

lemma read_loop_no_newline:
  assumes "list_all (\<lambda>r. \<exists>bs. r = Read_data bs \<and> bs \<noteq> [] \<and> newline \<notin> set bs) rs"
      and "find_newline buffer = None"
  shows "\<exists>rest. read_loop io buffer rs = Read_ended None rest"
  using assms
proof (induction rs arbitrary: buffer)
  case Nil
  then show ?case by simp
next
  case (Cons r rs)
  then obtain bs where r: "r = Read_data bs" "bs \<noteq> []" "newline \<notin> set bs" by auto
  have fn: "find_newline (xs @ ys) = None" if "find_newline xs = None" "newline \<notin> set ys" for xs ys
    using that by (induction xs) (auto, induction ys, auto)
  from Cons.prems(2) r(3) have "find_newline (buffer @ bs) = None" by (rule fn)
  with Cons r show ?case by auto
qed

text \<open>
  What \<^verbatim>\<open>_send_request\<close> does on the paths the claim names, on a platform with named
  pipes: no connection, no line before the deadline, a line that is UTF-8 and parses to
  an object with status Success, Error or anything else, and a line that is UTF-8 and
  does not parse.
\<close>

lemma send_request_outcomes:
  assumes "is_windows io" and "win_pipe_available io"
  shows "connect_to_pipe (connect_attempts io) = None \<Longrightarrow>
           send_request io command prms = Inl ConnectionRefusedError"
    and "connect_to_pipe (connect_attempts io) = Some h \<Longrightarrow> request_serializable io \<Longrightarrow>
         write_result io = Written \<Longrightarrow>
         list_all (\<lambda>r. \<exists>bs. r = Read_data bs \<and> bs \<noteq> [] \<and> newline \<notin> set bs) (reads io) \<Longrightarrow>
           send_request io command prms = Inl TimeoutError"
    and "connect_to_pipe (connect_attempts io) = Some h \<Longrightarrow> request_serializable io \<Longrightarrow>
         write_result io = Written \<Longrightarrow>
         read_loop io [] (reads io) = Read_ended (Some line) rest \<Longrightarrow> line \<noteq> [] \<Longrightarrow>
           send_request io command prms =
             (case json_loads io line of
                None \<Rightarrow> Inl ValueError
              | Some (PyDict response) \<Rightarrow>
                  if dict_get response ''Status'' PyNone = PyStr ''Success''
                    then Inr (dict_get response ''Result'' PyNone)
                  else if dict_get response ''Status'' PyNone = PyStr ''Error''
                    then Inl RuntimeError
                  else Inl ValueError
              | Some other \<Rightarrow> Inl RuntimeError)"
proof -
  show "connect_to_pipe (connect_attempts io) = None \<Longrightarrow>
           send_request io command prms = Inl ConnectionRefusedError"
    using assms by (simp add: send_request_def)
  show "connect_to_pipe (connect_attempts io) = Some h \<Longrightarrow> request_serializable io \<Longrightarrow>
         write_result io = Written \<Longrightarrow>
         list_all (\<lambda>r. \<exists>bs. r = Read_data bs \<and> bs \<noteq> [] \<and> newline \<notin> set bs) (reads io) \<Longrightarrow>
           send_request io command prms = Inl TimeoutError"
    using assms read_loop_no_newline [of "reads io" "[]" io]
    by (auto simp: send_request_def)
  show "connect_to_pipe (connect_attempts io) = Some h \<Longrightarrow> request_serializable io \<Longrightarrow>
         write_result io = Written \<Longrightarrow>
         read_loop io [] (reads io) = Read_ended (Some line) rest \<Longrightarrow> line \<noteq> [] \<Longrightarrow>
           send_request io command prms =
             (case json_loads io line of
                None \<Rightarrow> Inl ValueError
              | Some (PyDict response) \<Rightarrow>
                  if dict_get response ''Status'' PyNone = PyStr ''Success''
                    then Inr (dict_get response ''Result'' PyNone)
                  else if dict_get response ''Status'' PyNone = PyStr ''Error''
                    then Inl RuntimeError
                  else Inl ValueError
              | Some other \<Rightarrow> Inl RuntimeError)"
    using assms
    by (auto simp: send_request_def handle_response_def Let_def split: option.splits pyval.splits)
qed

text \<open>
  C9. The claim has a malformed response line raise ValueError. A line that is not
  UTF-8 is such a line, and the code raises \<^verbatim>\<open>ValueError("Received invalid UTF-8 data
  from C# service.")\<close> for it, but inside the \<^verbatim>\<open>try\<close> of the read loop, whose
  \<^verbatim>\<open>except Exception\<close> catches it and raises IOError (OSError) instead. Here the service
  answers with the byte 0xFF and a newline.
\<close>

theorem invalid_utf8_line_raises_OSError:
  "send_request (demo_pipe loads [Read_data [CHR 0xFF, newline]]) command prms = Inl OSError"
  by (simp add: send_request_def demo_pipe_def demo_ascii_decode_def newline_def)

theorem invalid_utf8_line_raises_OSError_witness:
  "send_request (demo_pipe (\<lambda>line. None) [Read_data [CHR 0xFF, newline]]) ''Ping'' (PyDict [])
     = Inl OSError"
  using invalid_utf8_line_raises_OSError [of "\<lambda>line. None" "''Ping''" "PyDict []"]
  by simp

subsection \<open>Trigger.check_conditions\<close>

lemma check_conditions_loop_and:
  "fst (check_conditions_loop chk LOGIC_AND cs results w) =
     (if cs = [] \<and> results = [] then False else list_all (\<lambda>b. b) (check_every chk cs w))"
proof (induction cs arbitrary: results w)
  case Nil
  then show ?case by simp
next
  case (Cons c cs)
  show ?case
  proof (cases "chk c w")
    case (Pair r w')
    then show ?thesis
      using Cons.IH [of "results @ [True]" w']
      by (cases r) (auto split: if_splits)
  qed
qed

lemma check_conditions_loop_or:
  "fst (check_conditions_loop chk LOGIC_OR cs results w) =
     list_ex (\<lambda>b. b) (check_every chk cs w)"
proof (induction cs arbitrary: results w)
  case Nil
  then show ?case by simp
next
  case (Cons c cs)
  show ?case
  proof (cases "chk c w")
    case (Pair r w')
    then show ?thesis
      using Cons.IH [of "results @ [False]" w']
      by (cases r) (auto split: if_splits)
  qed
qed

text \<open>
  C5. For an enabled trigger that is not an AI trigger: with a non-empty condition list,
  \<^verbatim>\<open>check_conditions\<close> returns True exactly when, under AND, every condition's check
  returns True and, under OR, at least one does (a check that raises counts as False);
  with an empty condition list it returns True exactly when the trigger has at least
  one action.
\<close>

theorem check_conditions_and_or:
  assumes "enabled t" and "\<not> is_ai_trigger t"
  shows "fst (check_conditions chk now t w) =
           (if conditions t = [] then trigger_actions t \<noteq> []
            else if condition_logic t = LOGIC_AND
              then list_all (\<lambda>b. b) (check_every chk (conditions t) w)
              else list_ex (\<lambda>b. b) (check_every chk (conditions t) w))"
proof (cases "condition_logic t")
  case LOGIC_AND
  then show ?thesis
    using assms check_conditions_loop_and [of chk "conditions t" "[]" w]
    by (auto simp: check_conditions_def split: prod.splits)
next
  case LOGIC_OR
  then show ?thesis
    using assms check_conditions_loop_or [of chk "conditions t" "[]" w]
    by (auto simp: check_conditions_def split: prod.splits)
qed

theorem check_conditions_and_or_witness:
  "enabled (demo_trigger LOGIC_OR) \<and> \<not> is_ai_trigger (demo_trigger LOGIC_OR) \<and>
   fst (check_conditions demo_check 7 (demo_trigger LOGIC_OR) ()) = True \<and>
   fst (check_conditions demo_check 7 (demo_trigger LOGIC_AND) ()) = False"
  using check_conditions_and_or [of "demo_trigger LOGIC_OR" demo_check 7 "()"]
    check_conditions_and_or [of "demo_trigger LOGIC_AND" demo_check 7 "()"]
  by (simp add: demo_trigger_def demo_check_def)

subsection \<open>Arithmetic on floats\<close>

text \<open>
  The exponent \<^const>\<open>binade\<close> computes is the one of the binade of its argument.
\<close>

lemma binade_bounds:
  assumes "r \<noteq> 0"
  shows "2 powi binade r \<le> \<bar>r\<bar> \<and> \<bar>r\<bar> < 2 powi (binade r + 1)"
proof (cases "1 \<le> \<bar>r\<bar>")
  case True
  define n where "n = \<lfloor>\<bar>r\<bar>\<rfloor>"
  have n: "0 < n" "of_int n \<le> \<bar>r\<bar>" "\<bar>r\<bar> < of_int n + 1"
    using True by (auto simp: n_def)
  have k: "1 \<le> bitlen n" using n(1) by (auto simp: bitlen_alt_def)
  from bitlen_bounds [OF n(1)] have b: "2 ^ nat (bitlen n - 1) \<le> n" "n + 1 \<le> 2 ^ nat (bitlen n)"
    by auto
  have e: "binade r = bitlen n - 1" using True by (simp add: binade_def n_def)
  have p1: "(2::real) powi (bitlen n - 1) = 2 ^ nat (bitlen n - 1)"
    using k by (simp add: power_int_def)
  have p2: "(2::real) powi (bitlen n - 1 + 1) = 2 ^ nat (bitlen n)"
    using k by (simp add: power_int_def)
  have lo: "(2::real) ^ nat (bitlen n - 1) \<le> of_int n"
    using of_int_le_iff [of "2 ^ nat (bitlen n - 1)" n, where ?'a = real] b(1) by simp
  have hi: "of_int n + 1 \<le> (2::real) ^ nat (bitlen n)"
    using of_int_le_iff [of "n + 1" "2 ^ nat (bitlen n)", where ?'a = real] b(2) by simp
  have "2 powi binade r \<le> \<bar>r\<bar>" unfolding e p1 using lo n(2) by linarith
  moreover have "\<bar>r\<bar> < 2 powi (binade r + 1)" unfolding e p2 using hi n(3) by linarith
  ultimately show ?thesis ..
next
  case False
  define t where "t = 1 / \<bar>r\<bar>"
  define m where "m = \<lceil>t\<rceil> - 1"
  have t: "1 < t" using False assms by (simp add: t_def)
  have m: "0 < m" "of_int m < t" "t \<le> of_int m + 1"
    using t by (auto simp: m_def less_ceiling_iff) linarith+
  have k: "1 \<le> bitlen m" using m(1) by (auto simp: bitlen_alt_def)
  from bitlen_bounds [OF m(1)] have b: "2 ^ nat (bitlen m - 1) \<le> m" "m + 1 \<le> 2 ^ nat (bitlen m)"
    by auto
  have e: "binade r = - bitlen m" using False by (simp add: binade_def m_def t_def)
  have p1: "(2::real) powi (- bitlen m) = 1 / 2 ^ nat (bitlen m)"
    using k by (simp add: power_int_def field_simps)
  have p2: "(2::real) powi (- bitlen m + 1) = 1 / 2 ^ nat (bitlen m - 1)"
    using k by (simp add: power_int_def field_simps)
  have r: "\<bar>r\<bar> = 1 / t" using assms by (simp add: t_def)
  have "(2::real) ^ nat (bitlen m - 1) \<le> of_int m"
    using of_int_le_iff [of "2 ^ nat (bitlen m - 1)" m, where ?'a = real] b(1) by simp
  then have lo: "(2::real) ^ nat (bitlen m - 1) < t" using m(2) by linarith
  have "of_int m + 1 \<le> (2::real) ^ nat (bitlen m)"
    using of_int_le_iff [of "m + 1" "2 ^ nat (bitlen m)", where ?'a = real] b(2) by simp
  then have hi: "t \<le> (2::real) ^ nat (bitlen m)" using m(3) by linarith
  have "1 / 2 ^ nat (bitlen m) \<le> 1 / t"
    using hi t by (intro divide_left_mono) auto
  then have "2 powi binade r \<le> \<bar>r\<bar>" unfolding e p1 r .
  moreover have "1 / t < 1 / 2 ^ nat (bitlen m - 1)"
    using lo t by (intro divide_strict_left_mono) auto
  then have "\<bar>r\<bar> < 2 powi (binade r + 1)" unfolding e p2 r .
  ultimately show ?thesis ..
qed

lemma float_lt_iff: "x \<noteq> NaN \<Longrightarrow> y \<noteq> NaN \<Longrightarrow> float_lt x y = (\<not> float_ge x y)"
  by (cases x; cases y) auto

lemma float_ge_NaN [simp]: "\<not> float_ge NaN y" "\<not> float_ge x NaN"
  by (cases y; simp) (cases x; simp)

text \<open>
  Additions of floats as Python evaluates them: \<^verbatim>\<open>0.1 + 0.2\<close> is 0.30000000000000004;
  a sum half way between two floats goes to the one with the even significand
  (\<^verbatim>\<open>1.0 + 2**-53\<close> is 1.0, and \<^verbatim>\<open>(1.0 + 2**-52) + 2**-53\<close> is \<^verbatim>\<open>1.0 + 2**-51\<close>). And
  \<^verbatim>\<open>sum([1.0, 2**-53, 2**-53])\<close>, added from left to right, is 1.0.
\<close>

lemma float_add_examples:
  "float_add (Finite (3602879701896397 / 2 ^ 55)) (Finite (3602879701896397 / 2 ^ 54))
     = Finite (1351079888211149 / 2 ^ 52)"
  "float_add (Finite 1) (Finite (1 / 2 ^ 53)) = Finite 1"
  "float_add (Finite (1 + 1 / 2 ^ 52)) (Finite (1 / 2 ^ 53)) = Finite (1 + 1 / 2 ^ 51)"
  "left_to_right_sum [Finite 1, Finite (1 / 2 ^ 53), Finite (1 / 2 ^ 53)] = Finite 1"
  by (simp_all add: left_to_right_sum_def round_to_double_def binade_def round_half_even_def
        compute_bitlen Let_def)

subsection \<open>RegionColorCondition.check\<close>

lemma clamp_percentage_range:
  "\<exists>r. clamp_percentage x = Finite r \<and> 0 \<le> r \<and> r \<le> 100"
  by (cases x) (auto simp: clamp_percentage_def float_min_def float_max_def)

lemma any_target_met_iff:
  "any_target_met cp tcs = (\<exists>t \<in> set tcs. float_ge (percentage cp (hex t)) (threshold t))"
  by (induction tcs) auto

lemma all_targets_met_iff:
  "all_targets_met cp tcs = (\<forall>t \<in> set tcs. \<not> float_lt (percentage cp (hex t)) (threshold t))"
  by (induction tcs) auto

text \<open>
  The sum of the check is the sum of floats and not the exact one: the floats
  16.666666666666668 and 83.33333333333333 add up to less than 100, their float sum is
  100.0, and the check against the threshold 100.0 is True.
\<close>

lemma total_of_rounded_sum:
  "left_to_right_sum (map (\<lambda>t. percentage demo_sixths (hex t))
       (target_colors_list (demo_region_color TOTAL_PERCENTAGE_ABOVE_THRESHOLD))) = Finite 100 \<and>
   4691249611844267 / 2 ^ 48 + 5864062014805333 / 2 ^ 46 < (100::real) \<and>
   RegionColorCondition_check demo_env left_to_right_sum (Color_percentages demo_sixths)
     ((demo_region_color TOTAL_PERCENTAGE_ABOVE_THRESHOLD)
        \<lparr>match_percentage_threshold := Finite 100\<rparr>) = True"
  by (simp add: RegionColorCondition_check_def Condition_check_def total_percentage_def
        demo_region_color_def demo_env_def demo_sixths_def percentage_def
        left_to_right_sum_def round_to_double_def binade_def round_half_even_def compute_bitlen
        Let_def)

text \<open>
  C7. For a valid RegionColorCondition whose check gets the percentages of the captured
  region (the bridge and the utilities are imported), with the comparisons of Python's
  floats: under ANY the check is True exactly when some target's percentage is greater
  than or equal to that target's threshold; under ALL, where the percentages and the
  thresholds of the targets are numbers (none is NaN; the thresholds the constructor
  stores never are), exactly when every target's percentage is greater than or equal
  to its threshold; under TOTAL exactly when the sum of the targets' percentages, as
  the builtin \<^verbatim>\<open>sum\<close> returns it (0.0 when there is no target), is greater than or equal
  to \<^verbatim>\<open>match_percentage_threshold\<close>.
\<close>

theorem RegionColorCondition_check_logic:
  assumes "is_valid c" and "bridge_imported env" and "utils_imported env" and "cv2_available env"
  shows "(region_condition_logic c = ANY_TARGET_MET_THRESHOLD \<longrightarrow>
           RegionColorCondition_check env builtin_sum (Color_percentages cp) c =
             (\<exists>t \<in> set (target_colors_list c).
                float_ge (percentage cp (hex t)) (threshold t))) \<and>
         (region_condition_logic c = ALL_TARGETS_MET_THRESHOLD \<and>
          (\<forall>t \<in> set (target_colors_list c). percentage cp (hex t) \<noteq> NaN \<and> threshold t \<noteq> NaN) \<longrightarrow>
           RegionColorCondition_check env builtin_sum (Color_percentages cp) c =
             (\<forall>t \<in> set (target_colors_list c).
                float_ge (percentage cp (hex t)) (threshold t))) \<and>
         (region_condition_logic c = TOTAL_PERCENTAGE_ABOVE_THRESHOLD \<longrightarrow>
           RegionColorCondition_check env builtin_sum (Color_percentages cp) c =
             float_ge
               (if target_colors_list c = [] then Finite 0
                else builtin_sum (map (\<lambda>t. percentage cp (hex t)) (target_colors_list c)))
               (match_percentage_threshold c))"
proof (intro conjI impI)
  assume "region_condition_logic c = ANY_TARGET_MET_THRESHOLD"
  then show "RegionColorCondition_check env builtin_sum (Color_percentages cp) c =
             (\<exists>t \<in> set (target_colors_list c).
                float_ge (percentage cp (hex t)) (threshold t))"
    using assms
    by (auto simp: RegionColorCondition_check_def Condition_check_def any_target_met_iff)
next
  assume "region_condition_logic c = ALL_TARGETS_MET_THRESHOLD \<and>
          (\<forall>t \<in> set (target_colors_list c). percentage cp (hex t) \<noteq> NaN \<and> threshold t \<noteq> NaN)"
  then show "RegionColorCondition_check env builtin_sum (Color_percentages cp) c =
             (\<forall>t \<in> set (target_colors_list c).
                float_ge (percentage cp (hex t)) (threshold t))"
    using assms
    by (auto simp: RegionColorCondition_check_def Condition_check_def all_targets_met_iff
          float_lt_iff)
next
  assume "region_condition_logic c = TOTAL_PERCENTAGE_ABOVE_THRESHOLD"
  then show "RegionColorCondition_check env builtin_sum (Color_percentages cp) c =
             float_ge
               (if target_colors_list c = [] then Finite 0
                else builtin_sum (map (\<lambda>t. percentage cp (hex t)) (target_colors_list c)))
               (match_percentage_threshold c)"
    using assms
    by (simp add: RegionColorCondition_check_def Condition_check_def total_percentage_def)
qed

theorem RegionColorCondition_check_logic_witness:
  "is_valid (demo_region_color ANY_TARGET_MET_THRESHOLD) \<and> bridge_imported demo_env \<and>
   utils_imported demo_env \<and> cv2_available demo_env \<and>
   map (\<lambda>t. (percentage demo_percentages (hex t), threshold t))
     (target_colors_list (demo_region_color ALL_TARGETS_MET_THRESHOLD))
     = [(Finite 50, Finite 60), (Finite 30, Finite 20)] \<and>
   left_to_right_sum [Finite 50, Finite 30] = Finite 80 \<and>
   RegionColorCondition_check demo_env left_to_right_sum (Color_percentages demo_percentages)
     (demo_region_color ANY_TARGET_MET_THRESHOLD) = True \<and>
   RegionColorCondition_check demo_env left_to_right_sum (Color_percentages demo_percentages)
     (demo_region_color ALL_TARGETS_MET_THRESHOLD) = False \<and>
   RegionColorCondition_check demo_env left_to_right_sum (Color_percentages demo_percentages)
     (demo_region_color TOTAL_PERCENTAGE_ABOVE_THRESHOLD) = True"
  using
    RegionColorCondition_check_logic [of "demo_region_color ANY_TARGET_MET_THRESHOLD" demo_env
      left_to_right_sum demo_percentages]
    RegionColorCondition_check_logic [of "demo_region_color ALL_TARGETS_MET_THRESHOLD" demo_env
      left_to_right_sum demo_percentages]
    RegionColorCondition_check_logic [of "demo_region_color TOTAL_PERCENTAGE_ABOVE_THRESHOLD"
      demo_env left_to_right_sum demo_percentages]
  by (simp add: demo_region_color_def demo_env_def demo_percentages_def percentage_def
        left_to_right_sum_def round_to_double_def binade_def round_half_even_def
        compute_bitlen Let_def)

subsection \<open>The registry of shared conditions\<close>

lemma list_all_update:
  "P (k, v) \<Longrightarrow> list_all P al \<Longrightarrow> list_all P (AList.update k v al)"
  by (induction al) auto

lemma list_all_delete: "list_all P al \<Longrightarrow> list_all P (AList.delete k al)"
  by (induction al) auto

lemma no_none_empty: "no_none_condition []"
  by (simp add: no_none_condition_def)

lemma no_none_update:
  "cond_type c \<noteq> ''none'' \<Longrightarrow> no_none_condition reg \<Longrightarrow>
   no_none_condition (AList.update k c reg)"
  unfolding no_none_condition_def by (rule list_all_update) auto

lemma no_none_load_loop:
  "no_none_condition reg \<Longrightarrow> no_none_condition (load_loop env k items reg)"
proof (induction items arbitrary: k reg)
  case Nil
  then show ?case by simp
next
  case (Cons a items)
  then show ?case
    by (cases a) (auto simp: no_none_update split: sum.splits)
qed

lemma no_none_load: "no_none_condition (load_shared_conditions env k data reg)"
  by (cases data) (simp_all add: load_shared_conditions_def no_none_load_loop no_none_empty)

lemma no_none_add:
  "no_none_condition reg \<Longrightarrow> no_none_condition (snd (add_or_update_shared_condition reg c))"
  by (simp add: add_or_update_shared_condition_def no_none_update)

lemma no_none_update_from_data:
  "no_none_condition reg \<Longrightarrow>
   no_none_condition (snd (update_shared_condition_from_data env k reg cid data))"
  by (cases data)
     (auto simp: update_shared_condition_from_data_def Let_def no_none_update
           split: option.splits sum.splits)

lemma no_none_delete:
  "no_none_condition reg \<Longrightarrow> no_none_condition (snd (delete_shared_condition reg cid))"
  by (simp add: delete_shared_condition_def no_none_condition_def list_all_delete)

lemma serializable_no_none:
  "v \<in> set (get_serializable_data reg) \<Longrightarrow>
   \<exists>d. v = PyDict d \<and> dict_get d ''type'' PyNone \<noteq> PyStr ''none''"
  by (auto simp: get_serializable_data_def to_dict_def dict_get_def)

text \<open>
  C6. No operation of the ConditionManager leaves a condition of type \<^verbatim>\<open>none\<close> in the
  registry: loading yields a registry without one whatever the data; adding, updating,
  deleting and clearing keep a registry without one that way; adding a
  NoneCondition, and updating from data of type \<^verbatim>\<open>none\<close>, return False and leave the
  registry as it was; \<^verbatim>\<open>get_serializable_data\<close> emits no dictionary of type
  \<^verbatim>\<open>none\<close>.
\<close>

theorem registry_never_holds_none:
  "no_none_condition (load_shared_conditions env k data reg) \<and>
   (no_none_condition reg \<longrightarrow>
      no_none_condition (snd (add_or_update_shared_condition reg c)) \<and>
      no_none_condition (snd (update_shared_condition_from_data env k reg cid data)) \<and>
      no_none_condition (snd (delete_shared_condition reg cid)) \<and>
      no_none_condition (clear_all_shared_conditions reg)) \<and>
   (cond_type c = ''none'' \<longrightarrow> add_or_update_shared_condition reg c = (False, reg)) \<and>
   (dict_get d ''type'' PyNone = PyStr ''none'' \<longrightarrow>
      update_shared_condition_from_data env k reg cid (PyDict d) = (False, reg)) \<and>
   (\<forall>v \<in> set (get_serializable_data reg).
      \<exists>d'. v = PyDict d' \<and> dict_get d' ''type'' PyNone \<noteq> PyStr ''none'')"
proof -
  have "cond_type c = ''none'' \<longrightarrow> add_or_update_shared_condition reg c = (False, reg)"
    by (simp add: add_or_update_shared_condition_def)
  moreover have "dict_get d ''type'' PyNone = PyStr ''none'' \<longrightarrow>
      update_shared_condition_from_data env k reg cid (PyDict d) = (False, reg)"
    by (simp add: update_shared_condition_from_data_def split: option.splits)
  moreover have "no_none_condition (clear_all_shared_conditions reg)"
    by (simp add: clear_all_shared_conditions_def no_none_condition_def)
  ultimately show ?thesis
    using no_none_load no_none_add no_none_update_from_data no_none_delete serializable_no_none
    by blast
qed

theorem registry_never_holds_none_witness:
  "no_none_condition demo_registry \<and> cond_type demo_none_condition = ''none'' \<and>
   dict_get demo_none_data ''type'' PyNone = PyStr ''none'' \<and>
   no_none_condition (load_shared_conditions demo_env 0 demo_conditions_data demo_registry) \<and>
   no_none_condition (snd (add_or_update_shared_condition demo_registry demo_none_condition)) \<and>
   no_none_condition (snd (update_shared_condition_from_data demo_env 0 demo_registry ''w1''
      demo_conditions_data)) \<and>
   no_none_condition (snd (delete_shared_condition demo_registry ''w1'')) \<and>
   add_or_update_shared_condition demo_registry demo_none_condition = (False, demo_registry) \<and>
   update_shared_condition_from_data demo_env 0 demo_registry ''w1'' (PyDict demo_none_data)
     = (False, demo_registry)"
proof -
  have h1: "no_none_condition demo_registry"
    by (simp add: no_none_condition_def demo_registry_def demo_window_condition_def)
  have h2: "cond_type demo_none_condition = ''none''"
    by (simp add: demo_none_condition_def)
  have h3: "dict_get demo_none_data ''type'' PyNone = PyStr ''none''"
    by (simp add: demo_none_data_def dict_get_def)
  show ?thesis
    using h1 h2 h3
      registry_never_holds_none [of demo_env 0 demo_conditions_data demo_registry
        demo_none_condition "''w1''" demo_none_data]
    by blast
qed

subsection \<open>Construction-time validation of the region\<close>

lemma validate_invalid:
  assumes "dict_has (params c) ''region_x1'' \<or> dict_has (params c) ''region_y1'' \<or>
           dict_has (params c) ''region_x2'' \<or> dict_has (params c) ''region_y2''"
      and "region_ints env (params c) = Inl ValueError \<or>
           region_ints env (params c) = Inl TypeError \<or>
           (\<exists>x1 y1 x2 y2. region_ints env (params c) = Inr (x1, y1, x2, y2) \<and>
                            (x2 \<le> x1 \<or> y2 \<le> y1))"
  shows "\<exists>c'. validate_basic_params env c = Inr c' \<and> \<not> is_valid c' \<and>
              validation_error c' \<noteq> None"
  using assms by (auto simp: validate_basic_params_def Let_def)

lemma Condition_init_validates:
  assumes "type \<noteq> []"
  shows "\<exists>c0. params c0 = p \<and>
           Condition_init env k type (PyDict p) ident nm mon = validate_basic_params env c0"
proof -
  let ?the_id = "case ident of
                   PyStr s \<Rightarrow> if s \<noteq> [] \<and> str_strip env s \<noteq> [] then s else uuid4_hex env k
                 | _ \<Rightarrow> uuid4_hex env k"
  let ?dflt = "str_title env (underscores_to_spaces type) @ ''_'' @ take 8 ?the_id"
  let ?final_name = "case nm of
                       PyStr s \<Rightarrow> if s \<noteq> [] \<and> str_strip env s \<noteq> [] then s else ?dflt
                     | _ \<Rightarrow> ?dflt"
  let ?c0 = "\<lparr>cond_id = ?the_id, cond_name = str_strip env ?final_name, cond_type = type,
              params = p, is_monitored_by_ai_brain = mon, is_valid = True,
              validation_error = None\<rparr>"
  have "Condition_init env k type (PyDict p) ident nm mon = validate_basic_params env ?c0"
    using assms by (simp add: Condition_init_def Let_def)
  moreover have "params ?c0 = p" by simp
  ultimately show ?thesis by blast
qed

lemma Condition_init_invalid:
  assumes "type \<noteq> []"
      and "dict_has p ''region_x1'' \<or> dict_has p ''region_y1'' \<or>
           dict_has p ''region_x2'' \<or> dict_has p ''region_y2''"
      and "region_ints env p = Inl ValueError \<or> region_ints env p = Inl TypeError \<or>
           (\<exists>x1 y1 x2 y2. region_ints env p = Inr (x1, y1, x2, y2) \<and> (x2 \<le> x1 \<or> y2 \<le> y1))"
  shows "\<exists>c. Condition_init env k type (PyDict p) ident nm mon = Inr c \<and> \<not> is_valid c \<and>
              validation_error c \<noteq> None"
proof -
  from Condition_init_validates [OF assms(1)] obtain c0 where
    c0: "params c0 = p"
        "Condition_init env k type (PyDict p) ident nm mon = validate_basic_params env c0"
    by blast
  with validate_invalid [of c0 env] assms(2,3) show ?thesis by auto
qed

lemma condition_check_invalid: "\<not> is_valid c \<Longrightarrow> condition_check env' c = False"
  by (simp add: condition_check_def NoneCondition_check_def Subclass_check_def
      Condition_check_def)

text \<open>
  C8 (as amended). A condition of any class, constructed with a name that is a string or
  falsy (such as \<open>None\<close>) and with region parameters whose coordinates, as \<^verbatim>\<open>int()\<close>
  converts them, have x2 \<le> x1 or y2 \<le> y1, or one of which \<^verbatim>\<open>int()\<close> rejects with
  ValueError or TypeError: the constructor returns, the condition is flagged invalid
  with a message, and every later check returns False.
\<close>

theorem invalid_region_is_flagged:
  assumes "type \<noteq> []"
      and "type = ''none'' \<longrightarrow> (\<exists>s. nm = PyStr s) \<or> \<not> py_truthy nm"
      and "dict_has p ''region_x1'' \<or> dict_has p ''region_y1'' \<or>
           dict_has p ''region_x2'' \<or> dict_has p ''region_y2''"
      and "region_ints env p = Inl ValueError \<or> region_ints env p = Inl TypeError \<or>
           (\<exists>x1 y1 x2 y2. region_ints env p = Inr (x1, y1, x2, y2) \<and> (x2 \<le> x1 \<or> y2 \<le> y1))"
  shows "\<exists>c. condition_class_init env k type (PyDict p) ident nm mon = Inr c \<and>
             \<not> is_valid c \<and> validation_error c \<noteq> None \<and>
             (\<forall>env'. condition_check env' c = False)"
proof (cases "type = ''none''")
  case True
  show ?thesis
  proof (cases "\<exists>s. nm = PyStr s")
    case False
    with assms(2) True have "\<not> py_truthy nm" by blast
    with True False
      Condition_init_invalid [OF _ assms(3,4), of "''none''" k ident "PyStr ''Always True''" False]
    show ?thesis
      by (cases nm)
         (auto simp: condition_class_init_def NoneCondition_init_def condition_check_invalid)
  next
    case True
    then obtain s where "nm = PyStr s" by blast
    with \<open>type = ''none''\<close>
      Condition_init_invalid [OF _ assms(3,4), of "''none''" k ident "PyStr ''Always True''" False]
      Condition_init_invalid [OF _ assms(3,4), of "''none''" k ident "PyStr s" False]
    show ?thesis
      by (auto simp: condition_class_init_def NoneCondition_init_def condition_check_invalid)
  qed
next
  case False
  with Condition_init_invalid [OF assms(1,3,4), of k ident nm mon]
  show ?thesis
    by (auto simp: condition_class_init_def Subclass_init_def condition_check_invalid)
qed

theorem invalid_region_is_flagged_witness:
  "dict_has region_backwards ''region_x1'' \<and>
   region_ints demo_env region_backwards = Inr (10, 0, 5, 1) \<and>
   (\<exists>c. condition_class_init demo_env 0 ''window_exists'' (PyDict region_backwards)
           PyNone PyNone False = Inr c \<and>
        \<not> is_valid c \<and> validation_error c \<noteq> None \<and>
        (\<forall>env'. condition_check env' c = False)) \<and>
   dict_has region_not_a_number ''region_x1'' \<and>
   region_ints demo_env region_not_a_number = Inl ValueError \<and>
   (\<exists>c. condition_class_init demo_env 0 ''none'' (PyDict region_not_a_number)
           PyNone (PyStr ''Region'') False = Inr c \<and>
        \<not> is_valid c \<and> validation_error c \<noteq> None \<and>
        (\<forall>env'. condition_check env' c = False))"
proof -
  have a1: "dict_has region_backwards ''region_x1''"
    by (simp add: dict_has_def region_backwards_def)
  have a2: "region_ints demo_env region_backwards = Inr (10, 0, 5, 1)"
    by (simp add: region_ints_def region_backwards_def dict_get_def)
  have b1: "dict_has region_not_a_number ''region_x1''"
    by (simp add: dict_has_def region_not_a_number_def)
  have b2: "region_ints demo_env region_not_a_number = Inl ValueError"
    by (simp add: region_ints_def region_not_a_number_def dict_get_def demo_env_def
        demo_int_of_str_def ascii_digit_def)
  show ?thesis
    using a1 a2 b1 b2
      invalid_region_is_flagged [of "''window_exists''" PyNone region_backwards demo_env 0 PyNone
        False]
      invalid_region_is_flagged [of "''none''" "PyStr ''Region''" region_not_a_number demo_env 0
        PyNone False]
    by simp
qed

text \<open>
  The claim as it was stated fails for coordinates that are not integers but that
  \<^verbatim>\<open>int()\<close> converts: the region from (2.5, 2.5) to (10.5, 10.5) is accepted, truncated
  to (2, 2) and (10, 10), the condition is valid and its check returns True.
\<close>

theorem float_region_is_accepted:
  "(case condition_class_init demo_env 0 ''none'' (PyDict region_of_floats) (PyStr ''c1'')
          PyNone False of
      Inr c \<Rightarrow> is_valid c \<and> validation_error c = None \<and> condition_check demo_env c
    | Inl e \<Rightarrow> False)"
  by (simp add: condition_class_init_def NoneCondition_init_def Condition_init_def
      validate_basic_params_def region_ints_def region_of_floats_def dict_get_def dict_has_def
      dict_set_def condition_check_def NoneCondition_check_def Condition_check_def Let_def
      demo_env_def)

subsection \<open>create_condition\<close>

text \<open>
  C10. \<^verbatim>\<open>create_condition\<close> is meant to return a NoneCondition where it cannot build
  the condition asked for. For a dictionary with no usable \<^verbatim>\<open>type\<close> and a name that is
  a non-zero number, it raises AttributeError instead: the name is passed unchanged to
  the constructor of NoneCondition, which calls \<^verbatim>\<open>name.strip()\<close>.
\<close>

theorem create_condition_raises_AttributeError:
  "create_condition env k (PyDict [(''name'', PyInt 5)]) = Inl AttributeError"
  by (simp add: create_condition_def dict_get_def NoneCondition_init_def)

theorem create_condition_raises_AttributeError_witness:
  "create_condition demo_env 0 (PyDict [(''name'', PyInt 5)]) = Inl AttributeError"
  using create_condition_raises_AttributeError [of demo_env 0]
  by simp

end
